theory Spec2Isabelle
  imports Main "HOL-Library.Word" "HOL-Library.Multiset"
begin

section \<open>Data model of CascadiaSettings.cpp\<close>

text \<open>
  A \<^verbatim>\<open>GUID\<close> is a 128-bit value; \<^verbatim>\<open>GUID{}\<close> is the all-zero one.
  A wide string (\<^verbatim>\<open>std::wstring\<close>, \<^verbatim>\<open>hstring\<close>, \<^verbatim>\<open>std::wstring_view\<close>) is the
  list of its 16-bit code units and may hold the terminator \<open>0\<close> anywhere. Where the
  source passes \<^verbatim>\<open>s.c_str()\<close> on to a comparison or a lookup, the receiver reads the
  string up to its first terminator: that is \<open>c_str\<close>.
\<close>

type_synonym guid = "128 word"
type_synonym wchar = "16 word"
type_synonym wstring = "wchar list"

definition null_guid :: guid where
  "null_guid = 0"

definition c_str :: "wstring \<Rightarrow> wstring" where
  "c_str w = takeWhile (\<lambda>c. c \<noteq> 0) w"

text \<open>The fallback scheme name \<^verbatim>\<open>L"Campbell"\<close> of \<^verbatim>\<open>_ValidateAllSchemesExist\<close>.\<close>

definition Campbell :: wstring where
  "Campbell = [0x43, 0x61, 0x6D, 0x70, 0x62, 0x65, 0x6C, 0x6C]"

text \<open>
  The warning and error enumerations. The source file names seven warnings; the
  enumeration's further members (the specific keybinding warnings) are \<open>OtherWarning n\<close>.
\<close>

datatype SettingsLoadWarnings =
    MissingDefaultProfile
  | DuplicateProfile
  | UnknownColorScheme
  | InvalidBackgroundImage
  | InvalidIcon
  | AtLeastOneKeybindingWarning
  | LegacyGlobalsProperty
  | OtherWarning nat

datatype SettingsLoadErrors = NoProfiles | AllProfilesHidden

text \<open>
  Every way a method of the class can fail to return: a thrown \<^verbatim>\<open>SettingsException\<close>,
  \<^verbatim>\<open>THROW_HR_IF_NULL(E_INVALIDARG, ...)\<close>, \<^verbatim>\<open>Value()\<close> called on a null
  \<^verbatim>\<open>IReference\<close>, \<^verbatim>\<open>operator[]\<close> past the end of the vector, and
  \<^verbatim>\<open>std::out_of_range\<close> from \<^verbatim>\<open>vector::at\<close>.
\<close>

datatype failure =
    SettingsException SettingsLoadErrors
  | E_INVALIDARG
  | NullDereference
  | ElementOutOfBounds
  | OutOfRange

text \<open>The fields of a profile that this file reads or writes.\<close>

record Profile =
  Guid :: "guid option"
  Name :: wstring
  Hidden :: bool
  ColorSchemeName :: wstring
  BackgroundImagePath :: wstring
  IconPath :: wstring

text \<open>
  Modelled from the spec: \<^verbatim>\<open>GlobalAppSettings\<close> is not among the sources. It holds the
  default-profile identifier (null when unset), the unparsed default-profile token when the
  user gave one, the names of the color-scheme table and the warnings collected while the
  keybindings were parsed. The accessors used by this file read and write these fields.
\<close>

record GlobalAppSettings =
  DefaultProfile :: guid
  UnparsedDefaultProfile :: "wstring option"
  ColorSchemes :: "wstring set"
  KeybindingsWarnings :: "SettingsLoadWarnings list"

text \<open>
  A settings document (\<^verbatim>\<open>Json::Value\<close>) as this file uses it: the identifiers that
  \<^verbatim>\<open>Profile::GetGuidOrGenerateForJson\<close> yields for the objects of
  \<^verbatim>\<open>_GetProfilesJsonObject(json)\<close>, in order, and whether the document has the
  top-level key \<^verbatim>\<open>"globals"\<close>.
\<close>

record SettingsJson =
  ProfilesJsonGuids :: "guid list"
  HasGlobalsKey :: bool

record CascadiaSettings =
  profiles :: "Profile list"
  globals :: GlobalAppSettings
  warnings :: "SettingsLoadWarnings list"
  userSettings :: SettingsJson
  defaultSettings :: SettingsJson

text \<open>
  The collaborators whose code is not among the sources, taken as parameters:
  \<^verbatim>\<open>Utils::GuidFromString\<close> (\<open>None\<close> when it throws), the identifier
  \<^verbatim>\<open>Profile::GenerateGuidIfNecessary\<close> derives for a profile that has none, and whether
  the \<^verbatim>\<open>Uri\<close> constructor accepts the expanded background-image and icon paths.
\<close>

record Ext =
  GuidFromString :: "wstring \<Rightarrow> guid option"
  GenerateGuidForProfile :: "Profile \<Rightarrow> guid"
  BackgroundImageUriOk :: "wstring \<Rightarrow> bool"
  IconUriOk :: "wstring \<Rightarrow> bool"

text \<open>Sequencing of fallible steps: the first failure ends the computation.\<close>

fun thenE :: "failure + 'a \<Rightarrow> ('a \<Rightarrow> failure + 'b) \<Rightarrow> failure + 'b" where
  "thenE (Inl e) f = Inl e"
| "thenE (Inr x) f = f x"

text \<open>\<^verbatim>\<open>profile.Guid().Value()\<close>\<close>

definition GuidValue :: "Profile \<Rightarrow> failure + guid" where
  "GuidValue profile = (case Guid profile of None \<Rightarrow> Inl NullDereference | Some g \<Rightarrow> Inr g)"

text \<open>\<^verbatim>\<open>til::coalesce_value\<close> with one and with two optional arguments.\<close>

fun coalesce_value1 :: "'a option \<Rightarrow> 'a \<Rightarrow> 'a" where
  "coalesce_value1 (Some a) d = a"
| "coalesce_value1 None d = d"

fun coalesce_value :: "'a option \<Rightarrow> 'a option \<Rightarrow> 'a \<Rightarrow> 'a" where
  "coalesce_value (Some a) b d = a"
| "coalesce_value None b d = coalesce_value1 b d"

section \<open>Lookup\<close>

definition FindProfile :: "CascadiaSettings \<Rightarrow> guid \<Rightarrow> Profile option" where
  "FindProfile s profileGuid =
     find (\<lambda>profile. Guid profile \<noteq> None \<and> Guid profile = Some profileGuid) (profiles s)"

text \<open>\<^verbatim>\<open>return { &_profiles[0], _profiles.size() }\<close>\<close>

definition GetProfiles :: "CascadiaSettings \<Rightarrow> failure + Profile list" where
  "GetProfiles s =
     (case profiles s of [] \<Rightarrow> Inl ElementOutOfBounds | p # ps \<Rightarrow> Inr (p # ps))"

text \<open>
  The name comparison at the end of \<^verbatim>\<open>_GetProfileGuidByName\<close>:
  \<^verbatim>\<open>profile.Name().c_str() == name\<close>.
\<close>

definition lookupName :: "CascadiaSettings \<Rightarrow> wstring \<Rightarrow> failure + guid option" where
  "lookupName s name =
     (case find (\<lambda>profile. c_str (Name profile) = name) (profiles s) of
        None \<Rightarrow> Inr None
      | Some profile \<Rightarrow> thenE (GuidValue profile) (\<lambda>g. Inr (Some g)))"

text \<open>
  \<^verbatim>\<open>_GetProfileGuidByName\<close>. The function body is a try block whose handler returns
  \<^verbatim>\<open>std::nullopt\<close>: an exception of \<^verbatim>\<open>GuidFromString\<close> ends the call with no result.
\<close>

definition GetProfileGuidByName :: "Ext \<Rightarrow> CascadiaSettings \<Rightarrow> wstring \<Rightarrow> failure + guid option" where
  "GetProfileGuidByName ext s name =
     (if name \<noteq> [] then
        (if length name = 38 \<and> name ! 0 = 0x7B then
           (case GuidFromString ext name of
              None \<Rightarrow> Inr None
            | Some newGUID \<Rightarrow>
                if FindProfile s newGUID \<noteq> None then Inr (Some newGUID) else lookupName s name)
         else lookupName s name)
      else Inr None)"

text \<open>
  \<^verbatim>\<open>_GetProfileGuidByIndex\<close>: the index is an \<^verbatim>\<open>int\<close>, the size of the vector is
  narrowed to \<^verbatim>\<open>int\<close> before the comparison, and \<^verbatim>\<open>at\<close> checks its argument.
\<close>

definition GetProfileGuidByIndex :: "CascadiaSettings \<Rightarrow> 32 word option \<Rightarrow> failure + guid option" where
  "GetProfileGuidByIndex s index =
     (case index of
        None \<Rightarrow> Inr None
      | Some realIndex \<Rightarrow>
          if 0 \<le> sint realIndex \<and>
             sint realIndex < sint (word_of_nat (length (profiles s)) :: 32 word)
          then (if nat (sint realIndex) < length (profiles s)
                then thenE (GuidValue (profiles s ! nat (sint realIndex))) (\<lambda>g. Inr (Some g))
                else Inl OutOfRange)
          else Inr None)"

record NewTerminalArgs =
  ProfileIndex :: "32 word option"
  ProfileArg :: wstring
  Commandline :: wstring
  StartingDirectory :: wstring
  TabTitle :: wstring

text \<open>\<^verbatim>\<open>_GetProfileForArgs\<close>; a null \<^verbatim>\<open>NewTerminalArgs\<close> is \<open>None\<close>.\<close>

definition GetProfileForArgs :: "Ext \<Rightarrow> CascadiaSettings \<Rightarrow> NewTerminalArgs option \<Rightarrow> failure + guid" where
  "GetProfileForArgs ext s newTerminalArgs =
     (case newTerminalArgs of
        None \<Rightarrow> Inr (DefaultProfile (globals s))
      | Some args \<Rightarrow>
          thenE (case ProfileIndex args of
                   None \<Rightarrow> Inr None
                 | Some i \<Rightarrow> GetProfileGuidByIndex s (Some i)) (\<lambda>profileByIndex.
          thenE (GetProfileGuidByName ext s (ProfileArg args)) (\<lambda>profileByName.
          Inr (coalesce_value profileByName profileByIndex (DefaultProfile (globals s))))))"

section \<open>The validation passes\<close>

definition ValidateProfilesExist :: "CascadiaSettings \<Rightarrow> failure + CascadiaSettings" where
  "ValidateProfilesExist s =
     (let hasProfiles = (profiles s \<noteq> []) in
      if \<not> hasProfiles then Inl (SettingsException NoProfiles) else Inr s)"

text \<open>
  Modelled from the spec: \<^verbatim>\<open>Profile::GenerateGuidIfNecessary\<close> is not among the sources;
  a profile lacking an identifier gets the derived one, any other profile is left as it is.
\<close>

definition GenerateGuidIfNecessary :: "Ext \<Rightarrow> Profile \<Rightarrow> Profile" where
  "GenerateGuidIfNecessary ext profile =
     (case Guid profile of
        None \<Rightarrow> profile\<lparr>Guid := Some (GenerateGuidForProfile ext profile)\<rparr>
      | Some g \<Rightarrow> profile)"

definition ValidateProfilesHaveGuid :: "Ext \<Rightarrow> CascadiaSettings \<Rightarrow> CascadiaSettings" where
  "ValidateProfilesHaveGuid ext s = s\<lparr>profiles := map (GenerateGuidIfNecessary ext) (profiles s)\<rparr>"

text \<open>\<^verbatim>\<open>_ResolveDefaultProfile\<close>\<close>

definition ResolveDefaultProfile :: "Ext \<Rightarrow> CascadiaSettings \<Rightarrow> failure + CascadiaSettings" where
  "ResolveDefaultProfile ext s =
     (case UnparsedDefaultProfile (globals s) of
        None \<Rightarrow> Inr s
      | Some unparsedDefaultProfile \<Rightarrow>
          thenE (GetProfileGuidByName ext s unparsedDefaultProfile) (\<lambda>maybeParsedDefaultProfile.
          let defaultProfileGuid = coalesce_value1 maybeParsedDefaultProfile null_guid in
          Inr (s\<lparr>globals := (globals s)\<lparr>DefaultProfile := defaultProfileGuid\<rparr>\<rparr>)))"

text \<open>
  \<^verbatim>\<open>_ValidateDefaultProfileExists\<close>: the loop is \<^verbatim>\<open>FindProfile\<close>'s test; the repair reads
  \<^verbatim>\<open>_profiles[0]\<close> and the value of its identifier.
\<close>

definition ValidateDefaultProfileExists :: "CascadiaSettings \<Rightarrow> failure + CascadiaSettings" where
  "ValidateDefaultProfileExists s =
     (let defaultProfileGuid = DefaultProfile (globals s);
          nullDefaultProfile = (defaultProfileGuid = null_guid);
          defaultProfileNotInProfiles =
            (\<not> list_ex (\<lambda>profile. Guid profile \<noteq> None \<and> Guid profile = Some defaultProfileGuid)
                 (profiles s))
      in if nullDefaultProfile \<or> defaultProfileNotInProfiles then
           (case profiles s of
              [] \<Rightarrow> Inl ElementOutOfBounds
            | first # rest \<Rightarrow>
                thenE (GuidValue first) (\<lambda>g.
                Inr (s\<lparr>warnings := warnings s @ [MissingDefaultProfile],
                        globals := (globals s)\<lparr>DefaultProfile := g\<rparr>\<rparr>)))
         else Inr s)"

text \<open>
  \<^verbatim>\<open>_ValidateNoDuplicateProfiles\<close>: the first loop visits the profiles by index and
  carries \<^verbatim>\<open>foundDupe\<close>, \<^verbatim>\<open>indicesToDelete\<close> and \<^verbatim>\<open>uniqueGuids\<close>; the second erases
  the marked indices walking backwards.
\<close>

fun collectDupes ::
  "Profile list \<Rightarrow> nat \<Rightarrow> bool \<times> nat list \<times> guid set \<Rightarrow> failure + (bool \<times> nat list \<times> guid set)" where
  "collectDupes [] i st = Inr st"
| "collectDupes (p # ps) i (foundDupe, indicesToDelete, uniqueGuids) =
     (case Guid p of
        None \<Rightarrow> Inl NullDereference
      | Some g \<Rightarrow>
          if g \<in> uniqueGuids
          then collectDupes ps (Suc i) (True, indicesToDelete @ [i], uniqueGuids)
          else collectDupes ps (Suc i) (foundDupe, indicesToDelete, insert g uniqueGuids))"

definition erase_at :: "nat \<Rightarrow> 'a list \<Rightarrow> 'a list" where
  "erase_at i xs = take i xs @ drop (Suc i) xs"

definition eraseBackwards :: "nat list \<Rightarrow> 'a list \<Rightarrow> 'a list" where
  "eraseBackwards indicesToDelete xs = fold erase_at (rev indicesToDelete) xs"

definition ValidateNoDuplicateProfiles :: "CascadiaSettings \<Rightarrow> failure + CascadiaSettings" where
  "ValidateNoDuplicateProfiles s =
     thenE (collectDupes (profiles s) 0 (False, [], {})) (\<lambda>(foundDupe, indicesToDelete, uniqueGuids).
     let s1 = s\<lparr>profiles := eraseBackwards indicesToDelete (profiles s)\<rparr> in
     Inr (if foundDupe then s1\<lparr>warnings := warnings s1 @ [DuplicateProfile]\<rparr> else s1))"

text \<open>
  \<^verbatim>\<open>_ReorderProfilesToMatchUserSettingsOrder\<close>: \<^verbatim>\<open>collectGuids\<close> appends the identifiers
  not yet in \<^verbatim>\<open>uniqueGuids\<close> to \<^verbatim>\<open>guidOrder\<close>; the outer loop runs \<^verbatim>\<open>gIndex\<close> over
  \<^verbatim>\<open>guidOrder\<close>, the inner loop looks from \<^verbatim>\<open>gIndex\<close> on for the first profile with that
  identifier and swaps it to \<^verbatim>\<open>gIndex\<close>.
\<close>

fun collectGuids :: "guid list \<Rightarrow> guid set \<times> guid list \<Rightarrow> guid set \<times> guid list" where
  "collectGuids [] st = st"
| "collectGuids (g # gs) (uniqueGuids, guidOrder) =
     (if g \<in> uniqueGuids then collectGuids gs (uniqueGuids, guidOrder)
      else collectGuids gs (insert g uniqueGuids, guidOrder @ [g]))"

fun findFrom :: "guid \<Rightarrow> Profile list \<Rightarrow> nat \<Rightarrow> failure + nat option" where
  "findFrom g [] pIndex = Inr None"
| "findFrom g (p # ps) pIndex =
     thenE (GuidValue p) (\<lambda>profileGuid.
     if profileGuid = g then Inr (Some pIndex) else findFrom g ps (Suc pIndex))"

definition iter_swap :: "'a list \<Rightarrow> nat \<Rightarrow> nat \<Rightarrow> 'a list" where
  "iter_swap xs i j = xs[i := xs ! j, j := xs ! i]"

fun reorderLoop :: "guid list \<Rightarrow> nat \<Rightarrow> Profile list \<Rightarrow> failure + Profile list" where
  "reorderLoop [] gIndex ps = Inr ps"
| "reorderLoop (g # gs) gIndex ps =
     thenE (findFrom g (drop gIndex ps) gIndex) (\<lambda>found.
     case found of
       None \<Rightarrow> reorderLoop gs (Suc gIndex) ps
     | Some pIndex \<Rightarrow> reorderLoop gs (Suc gIndex) (iter_swap ps pIndex gIndex))"

definition guidOrderOf :: "CascadiaSettings \<Rightarrow> guid list" where
  "guidOrderOf s =
     snd (collectGuids (ProfilesJsonGuids (defaultSettings s))
            (collectGuids (ProfilesJsonGuids (userSettings s)) ({}, [])))"

definition ReorderProfilesToMatchUserSettingsOrder :: "CascadiaSettings \<Rightarrow> failure + CascadiaSettings" where
  "ReorderProfilesToMatchUserSettingsOrder s =
     thenE (reorderLoop (guidOrderOf s) 0 (profiles s)) (\<lambda>ps. Inr (s\<lparr>profiles := ps\<rparr>))"

definition RemoveHiddenProfiles :: "CascadiaSettings \<Rightarrow> failure + CascadiaSettings" where
  "RemoveHiddenProfiles s =
     (let s1 = s\<lparr>profiles := filter (\<lambda>profile. \<not> Hidden profile) (profiles s)\<rparr>;
          hasProfiles = (profiles s1 \<noteq> [])
      in if \<not> hasProfiles then Inl (SettingsException AllProfilesHidden) else Inr s1)"

text \<open>
  \<^verbatim>\<open>_ValidateAllSchemesExist\<close>: one visit per profile, carrying \<^verbatim>\<open>foundInvalidScheme\<close>;
  the emptiness test reads the whole name, the lookup is \<^verbatim>\<open>find(schemeName.c_str())\<close>.
\<close>

fun schemesLoop :: "wstring set \<Rightarrow> Profile list \<Rightarrow> bool \<Rightarrow> Profile list \<times> bool" where
  "schemesLoop schemes [] foundInvalidScheme = ([], foundInvalidScheme)"
| "schemesLoop schemes (p # ps) foundInvalidScheme =
     (let schemeName = ColorSchemeName p in
      if schemeName \<noteq> [] \<and> c_str schemeName \<notin> schemes
      then (let (ps', f) = schemesLoop schemes ps True in (p\<lparr>ColorSchemeName := Campbell\<rparr> # ps', f))
      else (let (ps', f) = schemesLoop schemes ps foundInvalidScheme in (p # ps', f)))"

definition ValidateAllSchemesExist :: "CascadiaSettings \<Rightarrow> CascadiaSettings" where
  "ValidateAllSchemesExist s =
     (let (ps, foundInvalidScheme) = schemesLoop (ColorSchemes (globals s)) (profiles s) False;
          s1 = s\<lparr>profiles := ps\<rparr>
      in if foundInvalidScheme then s1\<lparr>warnings := warnings s1 @ [UnknownColorScheme]\<rparr> else s1)"

text \<open>
  \<^verbatim>\<open>_ValidateMediaResources\<close>: a path that is not empty and whose \<^verbatim>\<open>Uri\<close> cannot be
  built is reset to the empty string.
\<close>

definition checkBackground :: "Ext \<Rightarrow> Profile \<Rightarrow> Profile \<times> bool" where
  "checkBackground ext p =
     (if BackgroundImagePath p \<noteq> [] \<and> \<not> BackgroundImageUriOk ext (BackgroundImagePath p)
      then (p\<lparr>BackgroundImagePath := []\<rparr>, True) else (p, False))"

definition checkIcon :: "Ext \<Rightarrow> Profile \<Rightarrow> Profile \<times> bool" where
  "checkIcon ext p =
     (if IconPath p \<noteq> [] \<and> \<not> IconUriOk ext (IconPath p)
      then (p\<lparr>IconPath := []\<rparr>, True) else (p, False))"

fun mediaLoop :: "Ext \<Rightarrow> Profile list \<Rightarrow> bool \<times> bool \<Rightarrow> Profile list \<times> bool \<times> bool" where
  "mediaLoop ext [] flags = ([], flags)"
| "mediaLoop ext (p # ps) (invalidBackground, invalidIcon) =
     (let (p1, b) = checkBackground ext p;
          (p2, i) = checkIcon ext p1;
          (ps', flags) = mediaLoop ext ps (invalidBackground \<or> b, invalidIcon \<or> i)
      in (p2 # ps', flags))"

definition ValidateMediaResources :: "Ext \<Rightarrow> CascadiaSettings \<Rightarrow> CascadiaSettings" where
  "ValidateMediaResources ext s =
     (let (ps, invalidBackground, invalidIcon) = mediaLoop ext (profiles s) (False, False);
          s1 = s\<lparr>profiles := ps\<rparr>;
          s2 = (if invalidBackground then s1\<lparr>warnings := warnings s1 @ [InvalidBackgroundImage]\<rparr> else s1)
      in if invalidIcon then s2\<lparr>warnings := warnings s2 @ [InvalidIcon]\<rparr> else s2)"

definition ValidateKeybindings :: "CascadiaSettings \<Rightarrow> CascadiaSettings" where
  "ValidateKeybindings s =
     (let keybindingWarnings = KeybindingsWarnings (globals s) in
      if keybindingWarnings \<noteq> []
      then s\<lparr>warnings := (warnings s @ [AtLeastOneKeybindingWarning]) @ keybindingWarnings\<rparr>
      else s)"

definition ValidateNoGlobalsKey :: "CascadiaSettings \<Rightarrow> CascadiaSettings" where
  "ValidateNoGlobalsKey s =
     (if HasGlobalsKey (userSettings s)
      then s\<lparr>warnings := warnings s @ [LegacyGlobalsProperty]\<rparr> else s)"

text \<open>\<^verbatim>\<open>_ValidateSettings\<close>: the passes in the order of the source.\<close>

definition ValidateSettings :: "Ext \<Rightarrow> CascadiaSettings \<Rightarrow> failure + CascadiaSettings" where
  "ValidateSettings ext s =
     thenE (ValidateProfilesExist (s\<lparr>warnings := []\<rparr>)) (\<lambda>s1.
     thenE (ReorderProfilesToMatchUserSettingsOrder (ValidateProfilesHaveGuid ext s1)) (\<lambda>s3.
     thenE (RemoveHiddenProfiles s3) (\<lambda>s4.
     thenE (ValidateNoDuplicateProfiles s4) (\<lambda>s5.
     thenE (ResolveDefaultProfile ext s5) (\<lambda>s6.
     thenE (ValidateDefaultProfileExists s6) (\<lambda>s7.
     Inr (ValidateNoGlobalsKey (ValidateKeybindings
            (ValidateMediaResources ext (ValidateAllSchemesExist s7))))))))))"

section \<open>Building the settings of a new terminal\<close>

text \<open>
  \<^verbatim>\<open>TerminalSettings\<close>: the three fields \<^verbatim>\<open>BuildSettings\<close> writes; every other field is
  in the extension part of the record. \<^verbatim>\<open>Profile::CreateTerminalSettings\<close> and
  \<^verbatim>\<open>GlobalAppSettings::ApplyToSettings\<close> are not among the sources and are parameters.
\<close>

record TerminalSettings =
  Commandline :: wstring
  StartingDirectory :: wstring
  StartingTitle :: wstring

record 'o SettingsExt =
  CreateTerminalSettings :: "Profile \<Rightarrow> wstring set \<Rightarrow> 'o TerminalSettings_scheme"
  ApplyToSettings :: "GlobalAppSettings \<Rightarrow> 'o TerminalSettings_scheme \<Rightarrow> 'o TerminalSettings_scheme"

definition BuildSettingsForGuid ::
  "'o SettingsExt \<Rightarrow> CascadiaSettings \<Rightarrow> guid \<Rightarrow> failure + 'o TerminalSettings_scheme" where
  "BuildSettingsForGuid sx s profileGuid =
     (case FindProfile s profileGuid of
        None \<Rightarrow> Inl E_INVALIDARG
      | Some profile \<Rightarrow>
          Inr (ApplyToSettings sx (globals s)
                 (CreateTerminalSettings sx profile (ColorSchemes (globals s)))))"

definition applyOverrides ::
  "NewTerminalArgs option \<Rightarrow> 'o TerminalSettings_scheme \<Rightarrow> 'o TerminalSettings_scheme" where
  "applyOverrides newTerminalArgs settings =
     (case newTerminalArgs of
        None \<Rightarrow> settings
      | Some args \<Rightarrow>
          (let s1 = (if NewTerminalArgs.Commandline args \<noteq> []
                     then settings\<lparr>TerminalSettings.Commandline := NewTerminalArgs.Commandline args\<rparr>
                     else settings);
               s2 = (if NewTerminalArgs.StartingDirectory args \<noteq> []
                     then s1\<lparr>TerminalSettings.StartingDirectory := NewTerminalArgs.StartingDirectory args\<rparr>
                     else s1)
           in if TabTitle args \<noteq> [] then s2\<lparr>StartingTitle := TabTitle args\<rparr> else s2))"

definition BuildSettings ::
  "Ext \<Rightarrow> 'o SettingsExt \<Rightarrow> CascadiaSettings \<Rightarrow> NewTerminalArgs option \<Rightarrow>
     failure + (guid \<times> 'o TerminalSettings_scheme)" where
  "BuildSettings ext sx s newTerminalArgs =
     thenE (GetProfileForArgs ext s newTerminalArgs) (\<lambda>profileGuid.
     thenE (BuildSettingsForGuid sx s profileGuid) (\<lambda>settings.
     Inr (profileGuid, applyOverrides newTerminalArgs settings)))"

section \<open>Vocabulary of the statements\<close>

text \<open>
  A profile whose scheme name is set and, read up to its first terminator, is not a name of
  the color-scheme table; and in the spec's words, a profile whose scheme name is set and is
  not a name of the table.
\<close>

definition unknownScheme :: "CascadiaSettings \<Rightarrow> Profile \<Rightarrow> bool" where
  "unknownScheme s p =
     (ColorSchemeName p \<noteq> [] \<and> c_str (ColorSchemeName p) \<notin> ColorSchemes (globals s))"


text \<open>The default-profile identifier is null or is the identifier of no profile of the store.\<close>

definition defaultMissing :: "CascadiaSettings \<Rightarrow> bool" where
  "defaultMissing s =
     (DefaultProfile (globals s) = null_guid \<or>
      \<not> list_ex (\<lambda>p. Guid p = Some (DefaultProfile (globals s))) (profiles s))"

text \<open>The value of an overridable field: the override when it is not empty.\<close>

definition overrideOr :: "wstring \<Rightarrow> wstring \<Rightarrow> wstring" where
  "overrideOr override inherited = (if override \<noteq> [] then override else inherited)"

text \<open>
  The duplicate scan in the spec's words: the profiles are visited in order with the set of
  identifiers seen so far, and a profile whose identifier was already seen is deleted.
  \<open>dupIdx\<close> lists the indices the scan deletes, counting from \<open>i\<close>.
\<close>

fun dedupScan :: "guid option set \<Rightarrow> Profile list \<Rightarrow> Profile list" where
  "dedupScan seen [] = []"
| "dedupScan seen (p # ps) =
     (if Guid p \<in> seen then dedupScan seen ps else p # dedupScan (insert (Guid p) seen) ps)"

fun dupIdx :: "guid option set \<Rightarrow> Profile list \<Rightarrow> nat \<Rightarrow> nat list" where
  "dupIdx seen [] i = []"
| "dupIdx seen (p # ps) i =
     (if Guid p \<in> seen then i # dupIdx seen ps (Suc i) else dupIdx (insert (Guid p) seen) ps (Suc i))"

text \<open>Position \<open>i\<close> holds the first profile of the list with its identifier.\<close>

definition firstOccurrence :: "Profile list \<Rightarrow> nat \<Rightarrow> bool" where
  "firstOccurrence ps i = (\<forall>j<i. Guid (ps ! j) \<noteq> Guid (ps ! i))"

text \<open>
  The lookup helper in the spec's words: the token is taken as a literal identifier only if
  it has the identifier shape, parses, and is the identifier of a profile; in every other
  case the result is that of the comparison of the token with the names of the store.
\<close>

definition identifierShape :: "wstring \<Rightarrow> bool" where
  "identifierShape token = (length token = 38 \<and> token ! 0 = 0x7B)"

definition lookupByNameOrIdentifier :: "Ext \<Rightarrow> CascadiaSettings \<Rightarrow> wstring \<Rightarrow> guid option" where
  "lookupByNameOrIdentifier ext s token =
     (let byName = (case find (\<lambda>p. Name p = token) (profiles s) of
                      None \<Rightarrow> None
                    | Some p \<Rightarrow> Guid p)
      in if identifierShape token then
           (case GuidFromString ext token of
              None \<Rightarrow> byName
            | Some g \<Rightarrow> if list_ex (\<lambda>p. Guid p = Some g) (profiles s) then Some g else byName)
         else byName)"

text \<open>The store with every profile name read up to its first terminator.\<close>

definition cNames :: "CascadiaSettings \<Rightarrow> CascadiaSettings" where
  "cNames s = s\<lparr>profiles := map (\<lambda>p. p\<lparr>Name := c_str (Name p)\<rparr>) (profiles s)\<rparr>"

text \<open>
  The index lookup and the token lookup of the resolver as values: an index selects a profile
  if it is neither negative nor beyond the store, a token if it is not empty.
\<close>

definition indexLookup :: "CascadiaSettings \<Rightarrow> 32 word option \<Rightarrow> guid option" where
  "indexLookup s index =
     (case index of
        None \<Rightarrow> None
      | Some i \<Rightarrow>
          if 0 \<le> sint i \<and> sint i < int (length (profiles s))
          then Guid (profiles s ! nat (sint i)) else None)"

definition tokenLookup :: "Ext \<Rightarrow> CascadiaSettings \<Rightarrow> wstring \<Rightarrow> guid option" where
  "tokenLookup ext s token =
     (if token = [] then None else lookupByNameOrIdentifier ext (cNames s) token)"

text \<open>
  The order the reorder pass leaves behind: at each position of the identifier sequence, the
  profile there has that identifier, or no profile from that position on has it.
\<close>

fun arranged :: "guid list \<Rightarrow> Profile list \<Rightarrow> bool" where
  "arranged [] xs = True"
| "arranged (g # gs) [] = True"
| "arranged (g # gs) (x # xs) =
     ((Guid x = Some g \<or> Some g \<notin> Guid ` set (x # xs)) \<and> arranged gs xs)"


text \<open>
  No hidden profile has the identifier of a visible one, once the profiles without
  identifier have been given theirs.
\<close>

definition hiddenApart :: "Ext \<Rightarrow> CascadiaSettings \<Rightarrow> bool" where
  "hiddenApart ext s =
     (\<forall>p\<in>set (profiles s). \<forall>q\<in>set (profiles s).
        Hidden p \<and> \<not> Hidden q \<longrightarrow>
        Guid (GenerateGuidIfNecessary ext p) \<noteq> Guid (GenerateGuidIfNecessary ext q))"

text \<open>
  The run of \<open>_ValidateSettings\<close> cut at the default-profile existence pass: the passes up to
  the duplicate removal, up to the resolution of the default profile, and the passes after
  the existence pass.
\<close>

definition afterDedup :: "Ext \<Rightarrow> CascadiaSettings \<Rightarrow> failure + CascadiaSettings" where
  "afterDedup ext s =
     thenE (ValidateProfilesExist (s\<lparr>warnings := []\<rparr>)) (\<lambda>s1.
     thenE (ReorderProfilesToMatchUserSettingsOrder (ValidateProfilesHaveGuid ext s1)) (\<lambda>s3.
     thenE (RemoveHiddenProfiles s3) (\<lambda>s4.
     ValidateNoDuplicateProfiles s4)))"

definition beforeDefaultProfileCheck :: "Ext \<Rightarrow> CascadiaSettings \<Rightarrow> failure + CascadiaSettings" where
  "beforeDefaultProfileCheck ext s = thenE (afterDedup ext s) (ResolveDefaultProfile ext)"

definition afterDefaultProfileCheck :: "Ext \<Rightarrow> CascadiaSettings \<Rightarrow> CascadiaSettings" where
  "afterDefaultProfileCheck ext s7 =
     ValidateNoGlobalsKey (ValidateKeybindings (ValidateMediaResources ext (ValidateAllSchemesExist s7)))"

text \<open>
  What the color-scheme and media passes do to one profile, the conditions under which they
  warn, the warnings of the passes after the default-profile existence pass, and the
  identifier the resolution pass stores.
\<close>

definition repairScheme :: "wstring set \<Rightarrow> Profile \<Rightarrow> Profile" where
  "repairScheme schemes p =
     (if ColorSchemeName p \<noteq> [] \<and> c_str (ColorSchemeName p) \<notin> schemes
      then p\<lparr>ColorSchemeName := Campbell\<rparr> else p)"

definition repairMedia :: "Ext \<Rightarrow> Profile \<Rightarrow> Profile" where
  "repairMedia ext p = fst (checkIcon ext (fst (checkBackground ext p)))"

definition badBackground :: "Ext \<Rightarrow> Profile \<Rightarrow> bool" where
  "badBackground ext p = (BackgroundImagePath p \<noteq> [] \<and> \<not> BackgroundImageUriOk ext (BackgroundImagePath p))"

definition badIcon :: "Ext \<Rightarrow> Profile \<Rightarrow> bool" where
  "badIcon ext p = (IconPath p \<noteq> [] \<and> \<not> IconUriOk ext (IconPath p))"

definition schemeWarning :: "CascadiaSettings \<Rightarrow> SettingsLoadWarnings list" where
  "schemeWarning s = (if list_ex (unknownScheme s) (profiles s) then [UnknownColorScheme] else [])"

definition mediaWarnings :: "Ext \<Rightarrow> CascadiaSettings \<Rightarrow> SettingsLoadWarnings list" where
  "mediaWarnings ext s =
     (if list_ex (badBackground ext) (profiles s) then [InvalidBackgroundImage] else []) @
     (if list_ex (badIcon ext) (profiles s) then [InvalidIcon] else [])"

definition keybindingWarnings :: "CascadiaSettings \<Rightarrow> SettingsLoadWarnings list" where
  "keybindingWarnings s =
     (if KeybindingsWarnings (globals s) \<noteq> []
      then AtLeastOneKeybindingWarning # KeybindingsWarnings (globals s) else [])"

definition globalsKeyWarning :: "CascadiaSettings \<Rightarrow> SettingsLoadWarnings list" where
  "globalsKeyWarning s = (if HasGlobalsKey (userSettings s) then [LegacyGlobalsProperty] else [])"

definition lateWarnings :: "Ext \<Rightarrow> CascadiaSettings \<Rightarrow> SettingsLoadWarnings list" where
  "lateWarnings ext s =
     schemeWarning s @ mediaWarnings ext s @ keybindingWarnings s @ globalsKeyWarning s"

definition resolvedDefault :: "Ext \<Rightarrow> CascadiaSettings \<Rightarrow> guid" where
  "resolvedDefault ext s =
     (case UnparsedDefaultProfile (globals s) of
        None \<Rightarrow> DefaultProfile (globals s)
      | Some t \<Rightarrow> (case GetProfileGuidByName ext s t of Inr (Some g) \<Rightarrow> g | _ \<Rightarrow> null_guid))"

section \<open>Example inputs\<close>

text \<open>
  Profiles with an identifier, a name and a scheme name; globals whose table holds the
  fallback scheme; documents without profiles; a store of given profiles and default profile.
\<close>

definition exProfile :: "guid \<Rightarrow> wstring \<Rightarrow> wstring \<Rightarrow> Profile" where
  "exProfile g n sch = \<lparr>Guid = Some g, Name = n, Hidden = False, ColorSchemeName = sch,
      BackgroundImagePath = [], IconPath = []\<rparr>"

definition exGlobals :: GlobalAppSettings where
  "exGlobals = \<lparr>DefaultProfile = 1, UnparsedDefaultProfile = None, ColorSchemes = {Campbell},
      KeybindingsWarnings = []\<rparr>"

definition exJson :: SettingsJson where
  "exJson = \<lparr>ProfilesJsonGuids = [], HasGlobalsKey = False\<rparr>"

definition exStore :: "Profile list \<Rightarrow> guid \<Rightarrow> CascadiaSettings" where
  "exStore ps d = \<lparr>profiles = ps, globals = exGlobals\<lparr>DefaultProfile := d\<rparr>, warnings = [],
      userSettings = exJson, defaultSettings = exJson\<rparr>"


text \<open>Two identifiers that occur three times and twice, and one that occurs once.\<close>

definition exDupes :: CascadiaSettings where
  "exDupes = exStore [exProfile 7 [0x41] [], exProfile 8 [0x42] [], exProfile 7 [0x43] [],
      exProfile 8 [0x44] [], exProfile 7 [0x45] [], exProfile 9 [0x46] []] 7"

text \<open>
  The text \<open>{00000000-0000-0000-0000-000000000008}\<close>, and a string of the same shape
  that is not the text of an identifier: an opening brace, 36 letters \<open>z\<close>, a closing brace.
\<close>

definition exGuidText :: wstring where
  "exGuidText =
     [0x7B, 0x30, 0x30, 0x30, 0x30, 0x30, 0x30, 0x30, 0x30, 0x2D,
      0x30, 0x30, 0x30, 0x30, 0x2D, 0x30, 0x30, 0x30, 0x30, 0x2D,
      0x30, 0x30, 0x30, 0x30, 0x2D, 0x30, 0x30, 0x30, 0x30, 0x30,
      0x30, 0x30, 0x30, 0x30, 0x30, 0x30, 0x38, 0x7D]"

definition exBadToken :: wstring where
  "exBadToken =
     [0x7B, 0x7A, 0x7A, 0x7A, 0x7A, 0x7A, 0x7A, 0x7A, 0x7A, 0x7A,
      0x7A, 0x7A, 0x7A, 0x7A, 0x7A, 0x7A, 0x7A, 0x7A, 0x7A, 0x7A,
      0x7A, 0x7A, 0x7A, 0x7A, 0x7A, 0x7A, 0x7A, 0x7A, 0x7A, 0x7A,
      0x7A, 0x7A, 0x7A, 0x7A, 0x7A, 0x7A, 0x7A, 0x7D]"

text \<open>
  A parser that knows the text of one identifier and rejects every other string, a generator
  of identifiers, and \<open>Uri\<close> checks that reject the path \<open>":"\<close>.
\<close>

definition exExt :: Ext where
  "exExt = \<lparr>GuidFromString = (\<lambda>w. if w = exGuidText then Some 8 else None),
     GenerateGuidForProfile = (\<lambda>p. 100 + of_nat (length (Name p))),
     BackgroundImageUriOk = (\<lambda>w. w \<noteq> [0x3A]), IconUriOk = (\<lambda>w. w \<noteq> [0x3A])\<rparr>"

text \<open>Settings builders that take the starting title from the profile's name.\<close>

definition exSx :: "unit SettingsExt" where
  "exSx = \<lparr>CreateTerminalSettings =
             (\<lambda>p schemes. \<lparr>Commandline = [0x63], StartingDirectory = [0x64], StartingTitle = Name p\<rparr>),
           ApplyToSettings = (\<lambda>g t. t)\<rparr>"

definition exArgs :: NewTerminalArgs where
  "exArgs = \<lparr>ProfileIndex = Some 1, ProfileArg = [], Commandline = [0x78],
      StartingDirectory = [], TabTitle = []\<rparr>"

text \<open>Three profiles, the second of which is the default profile.\<close>

definition exThree :: CascadiaSettings where
  "exThree = exStore [exProfile 7 [0x41] [], exProfile 8 [0x42] [], exProfile 9 [0x43] []] 8"

text \<open>A store built from the defaults [A, C] and the user's profiles [A, B].\<close>

definition exReorder :: CascadiaSettings where
  "exReorder = \<lparr>profiles = [exProfile 1 [0x41] [], exProfile 3 [0x43] [],
        exProfile 1 [0x61] [], exProfile 2 [0x42] []],
      globals = exGlobals, warnings = [],
      userSettings = \<lparr>ProfilesJsonGuids = [1, 2], HasGlobalsKey = False\<rparr>,
      defaultSettings = \<lparr>ProfilesJsonGuids = [1, 3], HasGlobalsKey = False\<rparr>\<rparr>"

text \<open>
  A store with a hidden profile, a profile without identifier and an unknown scheme, and the
  settings its validation returns.
\<close>

definition exRun :: CascadiaSettings where
  "exRun = \<lparr>profiles = [(exProfile 3 [0x43] [0x58])\<lparr>Hidden := True\<rparr>, exProfile 2 [0x42] [0x58],
        (exProfile 1 [0x41] [])\<lparr>Guid := None\<rparr>],
      globals = exGlobals, warnings = [InvalidIcon],
      userSettings = \<lparr>ProfilesJsonGuids = [101, 2], HasGlobalsKey = True\<rparr>,
      defaultSettings = \<lparr>ProfilesJsonGuids = [3], HasGlobalsKey = False\<rparr>\<rparr>"

definition exRunValidated :: CascadiaSettings where
  "exRunValidated = \<lparr>profiles = [exProfile 101 [0x41] [], exProfile 2 [0x42] Campbell],
      globals = exGlobals\<lparr>DefaultProfile := 101\<rparr>,
      warnings = [MissingDefaultProfile, UnknownColorScheme, LegacyGlobalsProperty],
      userSettings = \<lparr>ProfilesJsonGuids = [101, 2], HasGlobalsKey = True\<rparr>,
      defaultSettings = \<lparr>ProfilesJsonGuids = [3], HasGlobalsKey = False\<rparr>\<rparr>"

text \<open>
  A hidden profile and a visible one share an identifier, and the user document has the
  legacy key; the settings after one and after two validations.
\<close>

definition exTwice :: CascadiaSettings where
  "exTwice = \<lparr>profiles = [(exProfile 1 [0x41] [])\<lparr>Hidden := True\<rparr>, exProfile 2 [0x42] [],
        exProfile 1 [0x61] []],
      globals = exGlobals, warnings = [],
      userSettings = \<lparr>ProfilesJsonGuids = [1, 2], HasGlobalsKey = True\<rparr>,
      defaultSettings = \<lparr>ProfilesJsonGuids = [], HasGlobalsKey = False\<rparr>\<rparr>"

definition exTwice1 :: CascadiaSettings where
  "exTwice1 = exTwice\<lparr>profiles := [exProfile 2 [0x42] [], exProfile 1 [0x61] []],
      warnings := [LegacyGlobalsProperty]\<rparr>"

definition exTwice2 :: CascadiaSettings where
  "exTwice2 = exTwice\<lparr>profiles := [exProfile 1 [0x61] [], exProfile 2 [0x42] []],
      warnings := [LegacyGlobalsProperty]\<rparr>"

text \<open>The settings the validation of the store built from [A, C] and [A, B] returns.\<close>

definition exReorderValidated :: CascadiaSettings where
  "exReorderValidated = exReorder\<lparr>profiles := [exProfile 1 [0x41] [], exProfile 2 [0x42] [],
        exProfile 3 [0x43] []],
      warnings := [DuplicateProfile]\<rparr>"



section \<open>Proofs\<close>

lemma guarded_guid_eq [simp]:
  "(x \<noteq> None \<and> x = Some g) = (x = Some (g::guid))"
  "((\<exists>y. x = Some y) \<and> x = Some g) = (x = Some (g::guid))"
  by auto

subsection \<open>Strings read up to their terminator\<close>

lemma c_str_id: "0 \<notin> set w \<Longrightarrow> c_str w = w"
  by (auto simp add: c_str_def takeWhile_eq_all_conv)

lemma c_str_Campbell [simp]: "c_str Campbell = Campbell"
  by (simp add: c_str_id Campbell_def)

subsection \<open>Color-scheme validation\<close>

lemma schemesLoop_eq:
  "schemesLoop schemes ps f =
     (map (\<lambda>p. if ColorSchemeName p \<noteq> [] \<and> c_str (ColorSchemeName p) \<notin> schemes
                then p\<lparr>ColorSchemeName := Campbell\<rparr> else p) ps,
      f \<or> list_ex (\<lambda>p. ColorSchemeName p \<noteq> [] \<and> c_str (ColorSchemeName p) \<notin> schemes) ps)"
  by (induction ps arbitrary: f) (simp_all add: Let_def)




subsection \<open>The default profile exists\<close>

lemma ValidateDefaultProfileExists_repair:
  assumes "profiles s = first # rest" and "Guid first = Some g"
  shows "ValidateDefaultProfileExists s =
     Inr (if defaultMissing s
          then s\<lparr>warnings := warnings s @ [MissingDefaultProfile],
                 globals := (globals s)\<lparr>DefaultProfile := g\<rparr>\<rparr>
          else s)"
  using assms
  by (auto simp add: ValidateDefaultProfileExists_def defaultMissing_def GuidValue_def Let_def)

text \<open>
  C3: on a store whose first profile has the identifier \<open>g\<close>, the default-profile existence
  pass appends \<open>MissingDefaultProfile\<close> and sets the default-profile identifier to \<open>g\<close> if
  that identifier is null or is the identifier of no profile; otherwise it changes nothing.
\<close>

theorem ValidateDefaultProfileExists_spec:
  assumes "profiles s = first # rest" and "Guid first = Some g"
  shows "ValidateDefaultProfileExists s =
     Inr (if defaultMissing s
          then s\<lparr>warnings := warnings s @ [MissingDefaultProfile],
                 globals := (globals s)\<lparr>DefaultProfile := g\<rparr>\<rparr>
          else s)"
  by (rule ValidateDefaultProfileExists_repair [OF assms])

theorem ValidateDefaultProfileExists_witness:
  "ValidateDefaultProfileExists (exStore [exProfile 7 [0x41] [], exProfile 8 [0x42] []] 9) =
     Inr ((exStore [exProfile 7 [0x41] [], exProfile 8 [0x42] []] 7)\<lparr>warnings := [MissingDefaultProfile]\<rparr>) \<and>
   ValidateDefaultProfileExists (exStore [exProfile 7 [0x41] [], exProfile 8 [0x42] []] 0) =
     Inr ((exStore [exProfile 7 [0x41] [], exProfile 8 [0x42] []] 7)\<lparr>warnings := [MissingDefaultProfile]\<rparr>) \<and>
   ValidateDefaultProfileExists (exStore [exProfile 7 [0x41] [], exProfile 8 [0x42] []] 8) =
     Inr (exStore [exProfile 7 [0x41] [], exProfile 8 [0x42] []] 8)"
  using ValidateDefaultProfileExists_spec [of "exStore [exProfile 7 [0x41] [], exProfile 8 [0x42] []] 9"
        "exProfile 7 [0x41] []" "[exProfile 8 [0x42] []]" 7]
    ValidateDefaultProfileExists_spec [of "exStore [exProfile 7 [0x41] [], exProfile 8 [0x42] []] 0"
        "exProfile 7 [0x41] []" "[exProfile 8 [0x42] []]" 7]
    ValidateDefaultProfileExists_spec [of "exStore [exProfile 7 [0x41] [], exProfile 8 [0x42] []] 8"
        "exProfile 7 [0x41] []" "[exProfile 8 [0x42] []]" 7]
  by (simp add: exStore_def exProfile_def exGlobals_def defaultMissing_def null_guid_def)

subsection \<open>Session overrides\<close>

text \<open>
  C8: when \<open>BuildSettings\<close> returns, its settings are those built for the resolved profile
  except that the command line, the starting directory and the starting title are each
  replaced by the corresponding argument if and only if that argument is not empty; every
  other field is the one built for the profile, and null arguments change nothing.
\<close>

theorem BuildSettings_overrides:
  assumes "BuildSettings ext sx s newTerminalArgs = Inr (profileGuid, settings)"
  shows "\<exists>base. BuildSettingsForGuid sx s profileGuid = Inr base \<and>
     (case newTerminalArgs of
        None \<Rightarrow> settings = base
      | Some args \<Rightarrow>
          TerminalSettings.Commandline settings =
            overrideOr (NewTerminalArgs.Commandline args) (TerminalSettings.Commandline base) \<and>
          TerminalSettings.StartingDirectory settings =
            overrideOr (NewTerminalArgs.StartingDirectory args) (TerminalSettings.StartingDirectory base) \<and>
          StartingTitle settings = overrideOr (TabTitle args) (StartingTitle base) \<and>
          TerminalSettings.more settings = TerminalSettings.more base)"
proof -
  from assms obtain g base where b: "BuildSettingsForGuid sx s g = Inr base"
    and r: "(profileGuid, settings) = (g, applyOverrides newTerminalArgs base)"
    unfolding BuildSettings_def
    by (cases "GetProfileForArgs ext s newTerminalArgs";
        cases "BuildSettingsForGuid sx s (projr (GetProfileForArgs ext s newTerminalArgs))") auto
  have "case newTerminalArgs of
        None \<Rightarrow> applyOverrides newTerminalArgs base = base
      | Some args \<Rightarrow>
          TerminalSettings.Commandline (applyOverrides newTerminalArgs base) =
            overrideOr (NewTerminalArgs.Commandline args) (TerminalSettings.Commandline base) \<and>
          TerminalSettings.StartingDirectory (applyOverrides newTerminalArgs base) =
            overrideOr (NewTerminalArgs.StartingDirectory args) (TerminalSettings.StartingDirectory base) \<and>
          StartingTitle (applyOverrides newTerminalArgs base) = overrideOr (TabTitle args) (StartingTitle base) \<and>
          TerminalSettings.more (applyOverrides newTerminalArgs base) = TerminalSettings.more base"
    by (cases newTerminalArgs) (simp_all add: applyOverrides_def overrideOr_def Let_def)
  with b r show ?thesis by auto
qed

theorem BuildSettings_overrides_witness:
  "BuildSettings exExt exSx (exStore [exProfile 7 [0x41] [], exProfile 8 [0x42] []] 7) (Some exArgs) =
     Inr (8, \<lparr>Commandline = [0x78], StartingDirectory = [0x64], StartingTitle = [0x42]\<rparr>) \<and>
   BuildSettingsForGuid exSx (exStore [exProfile 7 [0x41] [], exProfile 8 [0x42] []] 7) 8 =
     Inr \<lparr>Commandline = [0x63], StartingDirectory = [0x64], StartingTitle = [0x42]\<rparr>"
proof -
  have run: "BuildSettings exExt exSx (exStore [exProfile 7 [0x41] [], exProfile 8 [0x42] []] 7) (Some exArgs) =
     Inr (8, \<lparr>Commandline = [0x78], StartingDirectory = [0x64], StartingTitle = [0x42]\<rparr>)"
    by (simp add: BuildSettings_def GetProfileForArgs_def GetProfileGuidByIndex_def
        GetProfileGuidByName_def BuildSettingsForGuid_def FindProfile_def applyOverrides_def
        exStore_def exProfile_def exGlobals_def exArgs_def exSx_def exExt_def GuidValue_def)
  have base: "BuildSettingsForGuid exSx (exStore [exProfile 7 [0x41] [], exProfile 8 [0x42] []] 7) 8 =
     Inr \<lparr>Commandline = [0x63], StartingDirectory = [0x64], StartingTitle = [0x42]\<rparr>"
    by (simp add: BuildSettingsForGuid_def FindProfile_def exStore_def exProfile_def exGlobals_def exSx_def)
  from BuildSettings_overrides [OF run] run base show ?thesis
    by simp
qed

subsection \<open>Duplicate removal\<close>

lemma collectDupes_dupIdx:
  "\<forall>p\<in>set xs. Guid p \<noteq> None \<Longrightarrow>
   \<exists>u'. collectDupes xs i (f, acc, u) =
     Inr (f \<or> dupIdx (Some ` u) xs i \<noteq> [], acc @ dupIdx (Some ` u) xs i, u')"
proof (induction xs arbitrary: i f acc u)
  case Nil
  then show ?case by simp
next
  case (Cons p xs)
  then obtain g where g: "Guid p = Some g" by auto
  show ?case
  proof (cases "g \<in> u")
    case True
    from Cons.IH [of "Suc i" True "acc @ [i]" u] Cons.prems
    show ?thesis using g True by auto
  next
    case False
    from Cons.IH [of "Suc i" f acc "insert g u"] Cons.prems
    show ?thesis using g False by auto
  qed
qed

lemma erase_at_middle: "length pre = i \<Longrightarrow> erase_at i (pre @ p # ys) = pre @ ys"
  by (simp add: erase_at_def)

lemma eraseBackwards_Cons: "eraseBackwards (d # ds) xs = erase_at d (eraseBackwards ds xs)"
  by (simp add: eraseBackwards_def)

lemma eraseBackwards_Nil: "eraseBackwards [] xs = xs"
  by (simp add: eraseBackwards_def)

lemma eraseBackwards_dupIdx:
  "length pre = i \<Longrightarrow> eraseBackwards (dupIdx seen xs i) (pre @ xs) = pre @ dedupScan seen xs"
proof (induction xs arbitrary: pre i seen)
  case Nil
  then show ?case by (simp add: eraseBackwards_Nil)
next
  case (Cons p xs)
  have step: "eraseBackwards (dupIdx seen' xs (Suc i)) (pre @ p # xs) = (pre @ [p]) @ dedupScan seen' xs"
    for seen'
    using Cons.IH [of "pre @ [p]" "Suc i" seen'] Cons.prems by simp
  show ?case
    using Cons.prems by (simp add: eraseBackwards_Cons step erase_at_middle)
qed

lemma length_dedupScan: "length (dedupScan seen xs) + length (dupIdx seen xs i) = length xs"
  by (induction xs arbitrary: seen i) auto

lemma dedupScan_nths:
  "dedupScan seen ps = nths ps {i. Guid (ps ! i) \<notin> seen \<and> firstOccurrence ps i}"
proof (induction ps arbitrary: seen)
  case Nil
  then show ?case by simp
next
  case (Cons p ps)
  have split: "firstOccurrence (p # ps) (Suc j) = (Guid p \<noteq> Guid (ps ! j) \<and> firstOccurrence ps j)" for j
    unfolding firstOccurrence_def
    by (auto simp add: less_Suc_eq_0_disj)
  have zero: "firstOccurrence (p # ps) 0" by (simp add: firstOccurrence_def)
  show ?case
  proof (cases "Guid p \<in> seen")
    case True
    then have "{j. Suc j \<in> {i. Guid ((p # ps) ! i) \<notin> seen \<and> firstOccurrence (p # ps) i}} =
               {i. Guid (ps ! i) \<notin> seen \<and> firstOccurrence ps i}"
      by (auto simp add: split)
    with True show ?thesis by (simp add: nths_Cons Cons.IH)
  next
    case False
    then have "{j. Suc j \<in> {i. Guid ((p # ps) ! i) \<notin> seen \<and> firstOccurrence (p # ps) i}} =
               {i. Guid (ps ! i) \<notin> insert (Guid p) seen \<and> firstOccurrence ps i}"
      by (auto simp add: split)
    with False zero show ?thesis by (simp add: nths_Cons Cons.IH)
  qed
qed

lemma ValidateNoDuplicateProfiles_scan:
  assumes "\<forall>p\<in>set (profiles s). Guid p \<noteq> None"
  shows "ValidateNoDuplicateProfiles s =
       Inr (s\<lparr>profiles := dedupScan {} (profiles s),
              warnings := warnings s @ (if length (dedupScan {} (profiles s)) < length (profiles s)
                                        then [DuplicateProfile] else [])\<rparr>)"
proof -
  from collectDupes_dupIdx [OF assms, of 0 False "[]" "{}"]
  obtain u' where c: "collectDupes (profiles s) 0 (False, [], {}) =
      Inr (dupIdx {} (profiles s) 0 \<noteq> [], dupIdx {} (profiles s) 0, u')"
    by auto
  have e: "eraseBackwards (dupIdx {} (profiles s) 0) (profiles s) = dedupScan {} (profiles s)"
    using eraseBackwards_dupIdx [of "[]" 0 "{}" "profiles s"] by simp
  have l: "(dupIdx {} (profiles s) 0 \<noteq> []) = (length (dedupScan {} (profiles s)) < length (profiles s))"
    using length_dedupScan [of "{}" "profiles s" 0] by (cases "dupIdx {} (profiles s) 0") auto
  show ?thesis
    unfolding ValidateNoDuplicateProfiles_def c by (simp add: e l Let_def)
qed

text \<open>
  C2: on a store whose profiles all have identifiers, the duplicate-removal pass keeps exactly
  the profiles that the in-order scan with the set of seen identifiers keeps, which are the
  profiles at the positions holding the first occurrence of their identifier, in their
  order; it appends \<open>DuplicateProfile\<close> once if at least one profile was removed and not at
  all otherwise, and changes nothing else.
\<close>

theorem ValidateNoDuplicateProfiles_spec:
  assumes "\<forall>p\<in>set (profiles s). Guid p \<noteq> None"
  shows "\<exists>kept. ValidateNoDuplicateProfiles s =
       Inr (s\<lparr>profiles := kept,
              warnings := warnings s @ (if length kept < length (profiles s) then [DuplicateProfile] else [])\<rparr>) \<and>
     kept = dedupScan {} (profiles s) \<and>
     kept = nths (profiles s) {i. firstOccurrence (profiles s) i}"
proof -
  have "dedupScan {} (profiles s) = nths (profiles s) {i. firstOccurrence (profiles s) i}"
    using dedupScan_nths [of "{}" "profiles s"] by simp
  with ValidateNoDuplicateProfiles_scan [OF assms] show ?thesis by simp
qed

theorem ValidateNoDuplicateProfiles_witness:
  "ValidateNoDuplicateProfiles exDupes =
     Inr ((exStore [exProfile 7 [0x41] [], exProfile 8 [0x42] [], exProfile 9 [0x46] []] 7)
            \<lparr>warnings := [DuplicateProfile]\<rparr>)"
proof -
  have "\<forall>p\<in>set (profiles exDupes). Guid p \<noteq> None"
    by (simp add: exDupes_def exStore_def exProfile_def)
  from ValidateNoDuplicateProfiles_spec [OF this]
  obtain kept where
    "ValidateNoDuplicateProfiles exDupes =
       Inr (exDupes\<lparr>profiles := kept,
              warnings := warnings exDupes @ (if length kept < length (profiles exDupes) then [DuplicateProfile] else [])\<rparr>)"
    and "kept = dedupScan {} (profiles exDupes)"
    by blast
  then show ?thesis
    by (simp add: exDupes_def exStore_def exProfile_def)
qed

subsection \<open>Lookup by name or identifier\<close>

lemma find_None_list_ex: "(find P xs = None) = (\<not> list_ex P xs)"
  by (induction xs) auto

lemma FindProfile_None: "(FindProfile s g = None) = (\<not> list_ex (\<lambda>p. Guid p = Some g) (profiles s))"
  by (simp add: FindProfile_def find_None_list_ex)

lemma lookupName_all_guids:
  assumes "\<forall>p\<in>set (profiles s). Guid p \<noteq> None"
  shows "lookupName s name =
     Inr (case find (\<lambda>p. c_str (Name p) = name) (profiles s) of None \<Rightarrow> None | Some p \<Rightarrow> Guid p)"
proof (cases "find (\<lambda>p. c_str (Name p) = name) (profiles s)")
  case None
  then show ?thesis by (simp add: lookupName_def)
next
  case (Some p)
  then have "p \<in> set (profiles s)"
    by (auto simp add: find_Some_iff)
  with assms obtain g where "Guid p = Some g" by auto
  with Some show ?thesis by (simp add: lookupName_def GuidValue_def)
qed

lemma find_cNames:
  "(case find (\<lambda>p. Name p = name) (map (\<lambda>p. p\<lparr>Name := c_str (Name p)\<rparr>) ps) of
      None \<Rightarrow> None | Some p \<Rightarrow> Guid p) =
   (case find (\<lambda>p. c_str (Name p) = name) ps of None \<Rightarrow> None | Some p \<Rightarrow> Guid p)"
  by (induction ps) simp_all

lemma list_ex_cNames:
  "list_ex (\<lambda>p. Guid p = Some g) (map (\<lambda>p. p\<lparr>Name := c_str (Name p)\<rparr>) ps) =
   list_ex (\<lambda>p. Guid p = Some g) ps"
  by (induction ps) simp_all


lemma GetProfileGuidByName_eq:
  assumes "\<forall>p\<in>set (profiles s). Guid p \<noteq> None"
    and "identifierShape token \<longrightarrow> GuidFromString ext token \<noteq> None"
  shows "GetProfileGuidByName ext s token =
     Inr (if token = [] then None else lookupByNameOrIdentifier ext (cNames s) token)"
  using assms(2)
  by (auto simp add: GetProfileGuidByName_def lookupByNameOrIdentifier_def identifierShape_def
      lookupName_all_guids [OF assms(1)] FindProfile_None cNames_def find_cNames list_ex_cNames
      Let_def)




text \<open>
  C4: a token with the identifier shape that \<open>GuidFromString\<close> rejects is the name of the
  second profile; the resolver does not compare names and returns the default-profile
  identifier instead of that profile's.
\<close>

theorem GetProfileForArgs_unparseable_token:
  "GetProfileForArgs exExt (exStore [exProfile 7 [0x41] [], exProfile 8 exBadToken []] 7)
      (Some \<lparr>ProfileIndex = None, ProfileArg = exBadToken, Commandline = [], StartingDirectory = [],
              TabTitle = []\<rparr>) = Inr 7 \<and>
   lookupName (exStore [exProfile 7 [0x41] [], exProfile 8 exBadToken []] 7) exBadToken = Inr (Some 8) \<and>
   identifierShape exBadToken \<and> GuidFromString exExt exBadToken = None"
  by (simp add: GetProfileForArgs_def GetProfileGuidByName_def lookupName_def identifierShape_def
      GuidValue_def c_str_def exStore_def exProfile_def exGlobals_def exExt_def exBadToken_def exGuidText_def)

subsection \<open>Reordering\<close>

lemma arranged_Nil [simp]: "arranged gs []"
  by (cases gs) simp_all

lemma findFrom_None:
  "\<forall>p\<in>set xs. Guid p \<noteq> None \<Longrightarrow> Some g \<notin> Guid ` set xs \<Longrightarrow> findFrom g xs i = Inr None"
  by (induction xs arbitrary: i) (auto simp add: GuidValue_def)

lemma findFrom_Some:
  "\<forall>p\<in>set xs. Guid p \<noteq> None \<Longrightarrow> Some g \<in> Guid ` set xs \<Longrightarrow>
   \<exists>k<length xs. findFrom g xs i = Inr (Some (i + k)) \<and> Guid (xs ! k) = Some g"
proof (induction xs arbitrary: i)
  case Nil
  then show ?case by simp
next
  case (Cons p xs)
  show ?case
  proof (cases "Guid p = Some g")
    case True
    then have "findFrom g (p # xs) i = Inr (Some (i + 0)) \<and> Guid ((p # xs) ! 0) = Some g"
      by (simp add: GuidValue_def)
    then show ?thesis by blast
  next
    case False
    with Cons.prems obtain h where h: "Guid p = Some h" "h \<noteq> g" by auto
    from False Cons.prems have "Some g \<in> Guid ` set xs" by auto
    with Cons.IH [of "Suc i"] Cons.prems obtain k where
      k: "k < length xs" "findFrom g xs (Suc i) = Inr (Some (Suc i + k))" "Guid (xs ! k) = Some g"
      by auto
    then have "Suc k < length (p # xs) \<and> findFrom g (p # xs) i = Inr (Some (i + Suc k)) \<and>
        Guid ((p # xs) ! Suc k) = Some g"
      using h by (simp add: GuidValue_def)
    then show ?thesis by blast
  qed
qed

lemma findFrom_head: "Guid x = Some g \<Longrightarrow> findFrom g (x # xs) i = Inr (Some i)"
  by (simp add: GuidValue_def)

lemma iter_swap_same [simp]: "iter_swap xs i i = xs"
  by (simp add: iter_swap_def)

lemma mset_iter_swap: "i < length xs \<Longrightarrow> j < length xs \<Longrightarrow> mset (iter_swap xs j i) = mset xs"
  unfolding iter_swap_def by (rule mset_swap)

lemma mset_drop_eq:
  assumes "mset ps' = mset ps" and "take i ps' = take i ps"
  shows "mset (drop i ps') = mset (drop i ps)"
proof -
  have "mset (take i ps') + mset (drop i ps') = mset (take i ps) + mset (drop i ps)"
    using assms(1) by (simp add: union_code del: mset_append)
  with assms(2) show ?thesis by simp
qed

lemma reorderLoop_arranges:
  "\<forall>p\<in>set ps. Guid p \<noteq> None \<Longrightarrow>
   \<exists>ps'. reorderLoop gs i ps = Inr ps' \<and> mset ps' = mset ps \<and> take i ps' = take i ps \<and>
     arranged gs (drop i ps')"
proof (induction gs arbitrary: i ps)
  case Nil
  then show ?case by simp
next
  case (Cons g gs)
  have guids_drop: "\<forall>p\<in>set (drop i ps). Guid p \<noteq> None"
    using Cons.prems by (meson in_set_dropD)
  show ?case
  proof (cases "Some g \<in> Guid ` set (drop i ps)")
    case False
    then have f: "findFrom g (drop i ps) i = Inr None"
      using findFrom_None [OF guids_drop] by simp
    from Cons.IH [OF Cons.prems, of "Suc i"] obtain ps' where
      ps': "reorderLoop gs (Suc i) ps = Inr ps'" "mset ps' = mset ps"
        "take (Suc i) ps' = take (Suc i) ps" "arranged gs (drop (Suc i) ps')"
      by blast
    have t: "take i ps' = take i ps"
      using ps'(3) by (metis take_take min_def le_SucI order_refl)
    have m: "mset (drop i ps') = mset (drop i ps)"
      using mset_drop_eq [OF ps'(2) t] .
    then have s: "set (drop i ps') = set (drop i ps)"
      by (rule mset_eq_setD)
    have "arranged (g # gs) (drop i ps')"
    proof (cases "drop i ps'")
      case Nil
      then show ?thesis by simp
    next
      case (Cons y ys)
      then have "ys = drop (Suc i) ps'"
        by (metis drop_Suc list.sel(3) tl_drop)
      with Cons ps'(4) False s show ?thesis by simp
    qed
    with f ps' t show ?thesis by simp
  next
    case True
    from findFrom_Some [OF guids_drop True, of i] obtain k where
      k: "k < length (drop i ps)" "findFrom g (drop i ps) i = Inr (Some (i + k))"
        "Guid (drop i ps ! k) = Some g"
      by blast
    then have lt: "i + k < length ps" and i: "i < length ps" by auto
    have gk: "Guid (ps ! (i + k)) = Some g"
      using k(3) lt by simp
    let ?ps2 = "iter_swap ps (i + k) i"
    have m2: "mset ?ps2 = mset ps"
      using mset_iter_swap [OF i lt] .
    then have "set ?ps2 = set ps" by (rule mset_eq_setD)
    with Cons.prems have g2: "\<forall>p\<in>set ?ps2. Guid p \<noteq> None" by simp
    from Cons.IH [OF g2, of "Suc i"] obtain ps' where
      ps': "reorderLoop gs (Suc i) ?ps2 = Inr ps'" "mset ps' = mset ?ps2"
        "take (Suc i) ps' = take (Suc i) ?ps2" "arranged gs (drop (Suc i) ps')"
      by blast
    have len: "length ps' = length ps"
      using ps'(2) m2 by (metis mset_eq_length)
    have t: "take i ps' = take i ps"
    proof -
      have "take i ps' = take i (take (Suc i) ps')" by (simp add: min_def)
      also have "\<dots> = take i ?ps2" using ps'(3) by (simp add: min_def)
      also have "\<dots> = take i ps" by (simp add: iter_swap_def)
      finally show ?thesis .
    qed
    have "ps' ! i = take (Suc i) ps' ! i" by simp
    also have "\<dots> = ?ps2 ! i" using ps'(3) by simp
    also have "\<dots> = ps ! (i + k)" using i lt by (simp add: iter_swap_def)
    finally have at_i: "Guid (ps' ! i) = Some g" using gk by simp
    have "drop i ps' = ps' ! i # drop (Suc i) ps'"
      using i len by (simp add: Cons_nth_drop_Suc)
    with at_i ps'(4) have "arranged (g # gs) (drop i ps')" by simp
    with k(2) ps' m2 t show ?thesis by simp
  qed
qed

lemma reorderLoop_fixed:
  "\<forall>p\<in>set ps. Guid p \<noteq> None \<Longrightarrow> arranged gs (drop i ps) \<Longrightarrow> reorderLoop gs i ps = Inr ps"
proof (induction gs arbitrary: i)
  case Nil
  then show ?case by simp
next
  case (Cons g gs)
  show ?case
  proof (cases "drop i ps")
    case Nil
    then have "drop (Suc i) ps = []" by simp
    with Cons.IH [OF Cons.prems(1), of "Suc i"] Nil show ?thesis by simp
  next
    case (Cons x xs)
    then have xs: "xs = drop (Suc i) ps"
      by (metis drop_Suc list.sel(3) tl_drop)
    have guids: "\<forall>p\<in>set (x # xs). Guid p \<noteq> None"
      using Cons.prems(1) Cons by (metis in_set_dropD)
    from Cons.prems(2) Cons have a: "Guid x = Some g \<or> Some g \<notin> Guid ` set (x # xs)"
      and b: "arranged gs xs" by simp_all
    have rest: "reorderLoop gs (Suc i) ps = Inr ps"
      using Cons.IH [OF Cons.prems(1), of "Suc i"] b xs by simp
    show ?thesis
    proof (cases "Guid x = Some g")
      case True
      then show ?thesis using Cons rest by (simp add: GuidValue_def)
    next
      case False
      with a have "Some g \<notin> Guid ` set (x # xs)" by simp
      from findFrom_None [OF guids this] Cons rest show ?thesis by simp
    qed
  qed
qed











subsection \<open>The run of the pipeline\<close>

lemma thenE_assoc: "thenE (thenE m f) g = thenE m (\<lambda>x. thenE (f x) g)"
  by (cases m) simp_all

lemma ValidateSettings_split:
  "ValidateSettings ext s =
     thenE (beforeDefaultProfileCheck ext s) (\<lambda>s6.
     thenE (ValidateDefaultProfileExists s6) (\<lambda>s7. Inr (afterDefaultProfileCheck ext s7)))"
  by (simp add: ValidateSettings_def beforeDefaultProfileCheck_def afterDedup_def
      afterDefaultProfileCheck_def thenE_assoc)

lemma Guid_GenerateGuidIfNecessary [simp]:
  "Guid (GenerateGuidIfNecessary ext p) \<noteq> None"
  "\<exists>g. Guid (GenerateGuidIfNecessary ext p) = Some g"
  by (simp_all add: GenerateGuidIfNecessary_def split: option.splits)

lemma Hidden_GenerateGuidIfNecessary [simp]: "Hidden (GenerateGuidIfNecessary ext p) = Hidden p"
  by (simp add: GenerateGuidIfNecessary_def split: option.splits)

lemma guidOrderOf_update [simp]:
  "guidOrderOf (s\<lparr>profiles := ps\<rparr>) = guidOrderOf s"
  "guidOrderOf (s\<lparr>warnings := w\<rparr>) = guidOrderOf s"
  "guidOrderOf (s\<lparr>globals := g\<rparr>) = guidOrderOf s"
  by (simp_all add: guidOrderOf_def)

lemma set_dedupScan: "set (dedupScan seen ps) \<subseteq> set ps"
  by (induction ps arbitrary: seen) auto

lemma dedupScan_not_Nil: "ps \<noteq> [] \<Longrightarrow> dedupScan {} ps \<noteq> []"
  by (cases ps) simp_all

lemma distinct_dedupScan:
  "distinct (map Guid (dedupScan seen ps)) \<and> Guid ` set (dedupScan seen ps) \<inter> seen = {}"
proof (induction ps arbitrary: seen)
  case Nil
  then show ?case by simp
next
  case (Cons p ps)
  from Cons.IH [of seen] Cons.IH [of "insert (Guid p) seen"] show ?case by auto
qed

lemma dedupScan_distinct_id:
  "distinct (map Guid ps) \<Longrightarrow> Guid ` set ps \<inter> seen = {} \<Longrightarrow> dedupScan seen ps = ps"
  by (induction ps arbitrary: seen) auto

text \<open>The run up to the duplicate removal.\<close>

lemma afterDedup_cases:
  "profiles s = [] \<Longrightarrow> afterDedup ext s = Inl (SettingsException NoProfiles)"
  "profiles s \<noteq> [] \<Longrightarrow> \<forall>p\<in>set (profiles s). Hidden p \<Longrightarrow>
     afterDedup ext s = Inl (SettingsException AllProfilesHidden)"
  "\<exists>p\<in>set (profiles s). \<not> Hidden p \<Longrightarrow>
     \<exists>ps1 w. reorderLoop (guidOrderOf s) 0 (map (GenerateGuidIfNecessary ext) (profiles s)) = Inr ps1 \<and>
       mset ps1 = mset (map (GenerateGuidIfNecessary ext) (profiles s)) \<and>
       arranged (guidOrderOf s) ps1 \<and>
       afterDedup ext s =
         Inr (s\<lparr>profiles := dedupScan {} (filter (\<lambda>p. \<not> Hidden p) ps1), warnings := w\<rparr>) \<and>
       w = (if length (dedupScan {} (filter (\<lambda>p. \<not> Hidden p) ps1)) < length (filter (\<lambda>p. \<not> Hidden p) ps1)
            then [DuplicateProfile] else []) \<and>
       filter (\<lambda>p. \<not> Hidden p) ps1 \<noteq> []"
proof -
  show "profiles s = [] \<Longrightarrow> afterDedup ext s = Inl (SettingsException NoProfiles)"
    by (simp add: afterDedup_def ValidateProfilesExist_def)
next
  let ?gen = "map (GenerateGuidIfNecessary ext) (profiles s)"
  let ?s2 = "ValidateProfilesHaveGuid ext (s\<lparr>warnings := []\<rparr>)"
  have g: "\<forall>p\<in>set ?gen. Guid p \<noteq> None"
    by simp
  from reorderLoop_arranges [OF g, of "guidOrderOf s" 0] obtain ps1 where
    rl: "reorderLoop (guidOrderOf s) 0 ?gen = Inr ps1"
    and m: "mset ps1 = mset ?gen" and a: "arranged (guidOrderOf s) ps1"
    by auto
  have r: "ReorderProfilesToMatchUserSettingsOrder ?s2 = Inr (?s2\<lparr>profiles := ps1\<rparr>)"
    by (simp add: ReorderProfilesToMatchUserSettingsOrder_def ValidateProfilesHaveGuid_def rl)
  from m have st: "set ps1 = set ?gen" by (rule mset_eq_setD)
  have hid: "(\<forall>p\<in>set ps1. Hidden p) = (\<forall>p\<in>set (profiles s). Hidden p)"
    unfolding st by auto
  have g1: "\<forall>p\<in>set ps1. Guid p \<noteq> None"
    unfolding st by auto
  {
    assume ne: "profiles s \<noteq> []" and all: "\<forall>p\<in>set (profiles s). Hidden p"
    from all hid have "filter (\<lambda>p. \<not> Hidden p) ps1 = []" by (simp add: filter_empty_conv)
    with ne r show "afterDedup ext s = Inl (SettingsException AllProfilesHidden)"
      by (simp add: afterDedup_def ValidateProfilesExist_def RemoveHiddenProfiles_def Let_def)
  }
  {
    assume ex: "\<exists>p\<in>set (profiles s). \<not> Hidden p"
    then have ne: "profiles s \<noteq> []" by auto
    from ex hid have f: "filter (\<lambda>p. \<not> Hidden p) ps1 \<noteq> []"
      by (simp add: filter_empty_conv)
    let ?s4 = "?s2\<lparr>profiles := filter (\<lambda>p. \<not> Hidden p) ps1\<rparr>"
    have g4: "\<forall>p\<in>set (profiles ?s4). Guid p \<noteq> None" using g1 by simp
    have "afterDedup ext s = ValidateNoDuplicateProfiles ?s4"
      using ne r f
      by (simp add: afterDedup_def ValidateProfilesExist_def RemoveHiddenProfiles_def Let_def)
    also note ValidateNoDuplicateProfiles_scan [OF g4]
    finally have "afterDedup ext s =
         Inr (s\<lparr>profiles := dedupScan {} (filter (\<lambda>p. \<not> Hidden p) ps1),
                warnings := (if length (dedupScan {} (filter (\<lambda>p. \<not> Hidden p) ps1))
                                  < length (filter (\<lambda>p. \<not> Hidden p) ps1)
                             then [DuplicateProfile] else [])\<rparr>)"
      by (simp add: ValidateProfilesHaveGuid_def)
    with rl m a f
    show "\<exists>ps1 w. reorderLoop (guidOrderOf s) 0 (map (GenerateGuidIfNecessary ext) (profiles s)) = Inr ps1 \<and>
       mset ps1 = mset (map (GenerateGuidIfNecessary ext) (profiles s)) \<and>
       arranged (guidOrderOf s) ps1 \<and>
       afterDedup ext s =
         Inr (s\<lparr>profiles := dedupScan {} (filter (\<lambda>p. \<not> Hidden p) ps1), warnings := w\<rparr>) \<and>
       w = (if length (dedupScan {} (filter (\<lambda>p. \<not> Hidden p) ps1)) < length (filter (\<lambda>p. \<not> Hidden p) ps1)
            then [DuplicateProfile] else []) \<and>
       filter (\<lambda>p. \<not> Hidden p) ps1 \<noteq> []"
      by blast
  }
qed


lemma GetProfileGuidByName_total:
  assumes "\<forall>p\<in>set (profiles s). Guid p \<noteq> None"
  shows "\<exists>r. GetProfileGuidByName ext s name = Inr r"
  by (simp add: GetProfileGuidByName_def lookupName_all_guids [OF assms] split: option.splits)

lemma ResolveDefaultProfile_total:
  assumes "\<forall>p\<in>set (profiles s). Guid p \<noteq> None"
  shows "\<exists>d. ResolveDefaultProfile ext s = Inr (s\<lparr>globals := (globals s)\<lparr>DefaultProfile := d\<rparr>\<rparr>)"
proof (cases "UnparsedDefaultProfile (globals s)")
  case None
  then have "ResolveDefaultProfile ext s =
      Inr (s\<lparr>globals := (globals s)\<lparr>DefaultProfile := DefaultProfile (globals s)\<rparr>\<rparr>)"
    by (simp add: ResolveDefaultProfile_def)
  then show ?thesis by blast
next
  case (Some t)
  from GetProfileGuidByName_total [OF assms] obtain r where
    "GetProfileGuidByName ext s t = Inr r" by blast
  with Some have "ResolveDefaultProfile ext s =
      Inr (s\<lparr>globals := (globals s)\<lparr>DefaultProfile := coalesce_value1 r null_guid\<rparr>\<rparr>)"
    by (simp add: ResolveDefaultProfile_def Let_def)
  then show ?thesis by blast
qed

lemma beforeDefaultProfileCheck_cases:
  "profiles s = [] \<Longrightarrow> beforeDefaultProfileCheck ext s = Inl (SettingsException NoProfiles)"
  "profiles s \<noteq> [] \<Longrightarrow> \<forall>p\<in>set (profiles s). Hidden p \<Longrightarrow>
     beforeDefaultProfileCheck ext s = Inl (SettingsException AllProfilesHidden)"
  "\<exists>p\<in>set (profiles s). \<not> Hidden p \<Longrightarrow>
     \<exists>s6. beforeDefaultProfileCheck ext s = Inr s6 \<and> profiles s6 \<noteq> [] \<and>
       (\<forall>p\<in>set (profiles s6). Guid p \<noteq> None)"
proof -
  show "profiles s = [] \<Longrightarrow> beforeDefaultProfileCheck ext s = Inl (SettingsException NoProfiles)"
    by (simp add: beforeDefaultProfileCheck_def afterDedup_cases(1))
  show "profiles s \<noteq> [] \<Longrightarrow> \<forall>p\<in>set (profiles s). Hidden p \<Longrightarrow>
     beforeDefaultProfileCheck ext s = Inl (SettingsException AllProfilesHidden)"
    by (simp add: beforeDefaultProfileCheck_def afterDedup_cases(2))
  assume "\<exists>p\<in>set (profiles s). \<not> Hidden p"
  from afterDedup_cases(3) [OF this, of ext] obtain ps1 w where
    m: "mset ps1 = mset (map (GenerateGuidIfNecessary ext) (profiles s))"
    and d: "afterDedup ext s =
         Inr (s\<lparr>profiles := dedupScan {} (filter (\<lambda>p. \<not> Hidden p) ps1), warnings := w\<rparr>)"
    and f: "filter (\<lambda>p. \<not> Hidden p) ps1 \<noteq> []"
    by blast
  let ?s5 = "s\<lparr>profiles := dedupScan {} (filter (\<lambda>p. \<not> Hidden p) ps1), warnings := w\<rparr>"
  from m have "set ps1 = set (map (GenerateGuidIfNecessary ext) (profiles s))"
    by (rule mset_eq_setD)
  then have "\<forall>p\<in>set ps1. Guid p \<noteq> None" by auto
  with set_dedupScan [of "{}" "filter (\<lambda>p. \<not> Hidden p) ps1"]
  have g: "\<forall>p\<in>set (profiles ?s5). Guid p \<noteq> None" by auto
  from ResolveDefaultProfile_total [OF g, of ext] obtain dp where
    "ResolveDefaultProfile ext ?s5 = Inr (?s5\<lparr>globals := (globals ?s5)\<lparr>DefaultProfile := dp\<rparr>\<rparr>)"
    by blast
  with d g dedupScan_not_Nil [OF f]
  show "\<exists>s6. beforeDefaultProfileCheck ext s = Inr s6 \<and> profiles s6 \<noteq> [] \<and>
       (\<forall>p\<in>set (profiles s6). Guid p \<noteq> None)"
    by (simp add: beforeDefaultProfileCheck_def)
qed

lemma ValidateDefaultProfileExists_total:
  assumes "profiles s \<noteq> []" and "\<forall>p\<in>set (profiles s). Guid p \<noteq> None"
  shows "\<exists>s7. ValidateDefaultProfileExists s = Inr s7"
proof -
  from assms obtain first rest g where "profiles s = first # rest" "Guid first = Some g"
    by (cases "profiles s") auto
  from ValidateDefaultProfileExists_repair [OF this] show ?thesis by blast
qed

lemma ValidateSettings_cases:
  "profiles s = [] \<Longrightarrow> ValidateSettings ext s = Inl (SettingsException NoProfiles)"
  "profiles s \<noteq> [] \<Longrightarrow> \<forall>p\<in>set (profiles s). Hidden p \<Longrightarrow>
     ValidateSettings ext s = Inl (SettingsException AllProfilesHidden)"
  "\<exists>p\<in>set (profiles s). \<not> Hidden p \<Longrightarrow> \<exists>s'. ValidateSettings ext s = Inr s'"
proof -
  show "profiles s = [] \<Longrightarrow> ValidateSettings ext s = Inl (SettingsException NoProfiles)"
    by (simp add: ValidateSettings_split beforeDefaultProfileCheck_cases(1))
  show "profiles s \<noteq> [] \<Longrightarrow> \<forall>p\<in>set (profiles s). Hidden p \<Longrightarrow>
     ValidateSettings ext s = Inl (SettingsException AllProfilesHidden)"
    by (simp add: ValidateSettings_split beforeDefaultProfileCheck_cases(2))
  assume "\<exists>p\<in>set (profiles s). \<not> Hidden p"
  from beforeDefaultProfileCheck_cases(3) [OF this, of ext] obtain s6 where
    b: "beforeDefaultProfileCheck ext s = Inr s6" and n: "profiles s6 \<noteq> []"
    and g: "\<forall>p\<in>set (profiles s6). Guid p \<noteq> None"
    by blast
  from ValidateDefaultProfileExists_total [OF n g] b
  show "\<exists>s'. ValidateSettings ext s = Inr s'"
    by (auto simp add: ValidateSettings_split)
qed

lemmas pass_defs =
  ValidateProfilesExist_def ValidateProfilesHaveGuid_def GenerateGuidIfNecessary_def
  ReorderProfilesToMatchUserSettingsOrder_def guidOrderOf_def GuidValue_def iter_swap_def
  RemoveHiddenProfiles_def ValidateNoDuplicateProfiles_def eraseBackwards_def erase_at_def
  ResolveDefaultProfile_def ValidateDefaultProfileExists_def ValidateAllSchemesExist_def
  ValidateMediaResources_def checkBackground_def checkIcon_def ValidateKeybindings_def
  ValidateNoGlobalsKey_def null_guid_def c_str_def Let_def

lemma exRun_before:
  "beforeDefaultProfileCheck exExt exRun =
     Inr (exRun\<lparr>profiles := [exProfile 101 [0x41] [], exProfile 2 [0x42] [0x58]], warnings := []\<rparr>)"
  by (simp add: beforeDefaultProfileCheck_def afterDedup_def pass_defs
      exRun_def exExt_def exProfile_def exGlobals_def)

lemma exRun_validated: "ValidateSettings exExt exRun = Inr exRunValidated"
  by (simp add: ValidateSettings_def pass_defs
      exRun_def exRunValidated_def exExt_def exProfile_def exGlobals_def Campbell_def)

text \<open>
  C1: validation ends with a failure only in two ways: with \<open>NoProfiles\<close>, exactly when the
  store is empty at entry, and with \<open>AllProfilesHidden\<close>, exactly when the store is not
  empty and every profile is hidden, that is, when the store is empty after the hidden
  profiles are dropped. In every other case it returns settings: no other pass fails. The
  existence pass fails only with \<open>NoProfiles\<close>, exactly on an empty store, and the
  hidden-profile removal only with \<open>AllProfilesHidden\<close>, exactly when no profile is left.
\<close>

theorem ValidateSettings_fatal:
  "((ValidateSettings ext s = Inl e) =
      (e = SettingsException NoProfiles \<and> profiles s = [] \<or>
       e = SettingsException AllProfilesHidden \<and> profiles s \<noteq> [] \<and> (\<forall>p\<in>set (profiles s). Hidden p))) \<and>
   ((ValidateProfilesExist s = Inl e) = (e = SettingsException NoProfiles \<and> profiles s = [])) \<and>
   ((RemoveHiddenProfiles s = Inl e) =
      (e = SettingsException AllProfilesHidden \<and> filter (\<lambda>p. \<not> Hidden p) (profiles s) = []))"
proof -
  have run: "(ValidateSettings ext s = Inl e) =
      (e = SettingsException NoProfiles \<and> profiles s = [] \<or>
       e = SettingsException AllProfilesHidden \<and> profiles s \<noteq> [] \<and> (\<forall>p\<in>set (profiles s). Hidden p))"
  proof (cases "profiles s = []")
    case True
    with ValidateSettings_cases(1) [OF True, of ext] show ?thesis by auto
  next
    case False
    show ?thesis
    proof (cases "\<forall>p\<in>set (profiles s). Hidden p")
      case True
      with ValidateSettings_cases(2) [OF False True, of ext] False show ?thesis by auto
    next
      case False
      then have "\<exists>p\<in>set (profiles s). \<not> Hidden p" by simp
      from ValidateSettings_cases(3) [OF this, of ext] False show ?thesis by auto
    qed
  qed
  have first: "(ValidateProfilesExist s = Inl e) = (e = SettingsException NoProfiles \<and> profiles s = [])"
    by (auto simp add: ValidateProfilesExist_def)
  have fourth: "(RemoveHiddenProfiles s = Inl e) =
      (e = SettingsException AllProfilesHidden \<and> filter (\<lambda>p. \<not> Hidden p) (profiles s) = [])"
    by (auto simp add: RemoveHiddenProfiles_def Let_def)
  from run first fourth show ?thesis by simp
qed

theorem ValidateSettings_fatal_witness:
  "ValidateSettings exExt (exRun\<lparr>profiles := []\<rparr>) = Inl (SettingsException NoProfiles) \<and>
   ValidateSettings exExt (exRun\<lparr>profiles := [(exProfile 3 [0x43] [0x58])\<lparr>Hidden := True\<rparr>]\<rparr>) =
     Inl (SettingsException AllProfilesHidden) \<and>
   ValidateSettings exExt exRun = Inr exRunValidated"
  using ValidateSettings_fatal [of exExt "exRun\<lparr>profiles := []\<rparr>" "SettingsException NoProfiles"]
    ValidateSettings_fatal [of exExt "exRun\<lparr>profiles := [(exProfile 3 [0x43] [0x58])\<lparr>Hidden := True\<rparr>]\<rparr>"
      "SettingsException AllProfilesHidden"]
    exRun_validated
  by (simp add: exProfile_def)

text \<open>
  C10: the existence pass lets only a non-empty store through; in every run that reaches the
  default-profile existence pass the store is not empty there and the pass returns, so that
  no run of the validation reads element 0 out of bounds; \<open>GetProfiles\<close> returns the
  profiles of a non-empty store and reads element 0 out of bounds on an empty one, and the
  default-profile existence pass reads it out of bounds exactly when it is called on an
  empty store.
\<close>

theorem first_profile_reads:
  "ValidateProfilesExist s =
     (if profiles s = [] then Inl (SettingsException NoProfiles) else Inr s) \<and>
   (\<forall>s6. beforeDefaultProfileCheck ext s = Inr s6 \<longrightarrow>
      profiles s6 \<noteq> [] \<and> (\<exists>s7. ValidateDefaultProfileExists s6 = Inr s7)) \<and>
   ValidateSettings ext s \<noteq> Inl ElementOutOfBounds \<and>
   GetProfiles s = (if profiles s = [] then Inl ElementOutOfBounds else Inr (profiles s)) \<and>
   (ValidateDefaultProfileExists s = Inl ElementOutOfBounds) = (profiles s = [])"
proof -
  have 1: "ValidateProfilesExist s =
     (if profiles s = [] then Inl (SettingsException NoProfiles) else Inr s)"
    by (simp add: ValidateProfilesExist_def)
  have 2: "profiles s6 \<noteq> [] \<and> (\<exists>s7. ValidateDefaultProfileExists s6 = Inr s7)"
    if b: "beforeDefaultProfileCheck ext s = Inr s6" for s6
  proof -
    have "\<exists>p\<in>set (profiles s). \<not> Hidden p"
    proof (rule ccontr)
      assume "\<not> (\<exists>p\<in>set (profiles s). \<not> Hidden p)"
      then have "\<forall>p\<in>set (profiles s). Hidden p" by simp
      with beforeDefaultProfileCheck_cases(1,2) [of s ext] b show False
        by (cases "profiles s = []") auto
    qed
    from beforeDefaultProfileCheck_cases(3) [OF this, of ext] b
      ValidateDefaultProfileExists_total [of s6]
    show ?thesis by auto
  qed
  have 3: "ValidateSettings ext s \<noteq> Inl ElementOutOfBounds"
  proof
    assume "ValidateSettings ext s = Inl ElementOutOfBounds"
    then show False
      by (cases "profiles s = []"; cases "\<forall>p\<in>set (profiles s). Hidden p")
        (use ValidateSettings_cases [of s ext] in auto)
  qed
  have 4: "GetProfiles s = (if profiles s = [] then Inl ElementOutOfBounds else Inr (profiles s))"
    by (simp add: GetProfiles_def split: list.splits)
  have 5: "(ValidateDefaultProfileExists s = Inl ElementOutOfBounds) = (profiles s = [])"
  proof (cases "profiles s")
    case Nil
    then show ?thesis by (simp add: ValidateDefaultProfileExists_def)
  next
    case (Cons first rest)
    then show ?thesis
      by (cases "Guid first") (simp_all add: ValidateDefaultProfileExists_def GuidValue_def Let_def)
  qed
  from 1 2 3 4 5 show ?thesis by blast
qed

theorem first_profile_reads_witness:
  "beforeDefaultProfileCheck exExt exRun =
     Inr (exRun\<lparr>profiles := [exProfile 101 [0x41] [], exProfile 2 [0x42] [0x58]], warnings := []\<rparr>) \<and>
   ValidateDefaultProfileExists
       (exRun\<lparr>profiles := [exProfile 101 [0x41] [], exProfile 2 [0x42] [0x58]], warnings := []\<rparr>) =
     Inr (exRun\<lparr>profiles := [exProfile 101 [0x41] [], exProfile 2 [0x42] [0x58]],
            warnings := [MissingDefaultProfile], globals := exGlobals\<lparr>DefaultProfile := 101\<rparr>\<rparr>) \<and>
   ValidateProfilesExist exRun = Inr exRun \<and>
   GetProfiles exRun = Inr (profiles exRun) \<and>
   GetProfiles (exRun\<lparr>profiles := []\<rparr>) = Inl ElementOutOfBounds \<and>
   ValidateDefaultProfileExists (exRun\<lparr>profiles := []\<rparr>) = Inl ElementOutOfBounds"
proof -
  have e: "ValidateDefaultProfileExists
       (exRun\<lparr>profiles := [exProfile 101 [0x41] [], exProfile 2 [0x42] [0x58]], warnings := []\<rparr>) =
     Inr (exRun\<lparr>profiles := [exProfile 101 [0x41] [], exProfile 2 [0x42] [0x58]],
            warnings := [MissingDefaultProfile], globals := exGlobals\<lparr>DefaultProfile := 101\<rparr>\<rparr>)"
    by (simp add: pass_defs exRun_def exProfile_def exGlobals_def)
  have n: "profiles exRun \<noteq> []" by (simp add: exRun_def)
  from first_profile_reads [of exRun exExt] first_profile_reads [of "exRun\<lparr>profiles := []\<rparr>" exExt]
    exRun_before e n
  show ?thesis by simp
qed

subsection \<open>The arrangement survives the removal of profiles\<close>

lemma arranged_map:
  "(\<And>p. Guid (f p) = Guid p) \<Longrightarrow> arranged gs (map f ps) = arranged gs ps"
proof (induction gs ps rule: arranged.induct)
  case (3 g gs x xs)
  have "Guid ` f ` set xs = Guid ` set xs"
    using "3.prems" by (auto simp add: image_iff)
  with 3 show ?case by (simp add: image_image)
qed simp_all

lemma arranged_shift:
  "distinct (map Guid ys) \<Longrightarrow> Some g \<notin> Guid ` set ys \<Longrightarrow> arranged gs ys \<Longrightarrow> arranged (g # gs) ys"
proof (induction ys arbitrary: g gs)
  case Nil
  then show ?case by simp
next
  case (Cons y ys)
  have "arranged gs ys"
  proof (cases gs)
    case Nil
    then show ?thesis by simp
  next
    case (Cons g1 gs')
    with Cons.prems(3) have a: "Guid y = Some g1 \<or> Some g1 \<notin> Guid ` set (y # ys)"
      and b: "arranged gs' ys" by simp_all
    from a Cons.prems(1) have "Some g1 \<notin> Guid ` set ys" by (auto simp add: image_iff)
    with Cons.IH [of g1 gs'] Cons.prems(1) b \<open>gs = g1 # gs'\<close> show ?thesis by simp
  qed
  with Cons.prems(2) show ?case by simp
qed

lemma arranged_filter:
  "distinct (map Guid xs) \<Longrightarrow> arranged gs xs \<Longrightarrow> arranged gs (filter P xs)"
proof (induction xs arbitrary: gs)
  case Nil
  then show ?case by simp
next
  case (Cons x xs)
  show ?case
  proof (cases gs)
    case Nil
    then show ?thesis by simp
  next
    case (Cons g gs')
    with Cons.prems(2) have a: "Guid x = Some g \<or> Some g \<notin> Guid ` set (x # xs)"
      and b: "arranged gs' xs" by simp_all
    from Cons.prems(1) have d: "distinct (map Guid xs)" by simp
    have ih: "arranged gs' (filter P xs)" using Cons.IH [OF d b] .
    show ?thesis
    proof (cases "P x")
      case True
      with a ih \<open>gs = g # gs'\<close> show ?thesis by auto
    next
      case False
      from a Cons.prems(1) have "Some g \<notin> Guid ` set xs" by (auto simp add: image_iff)
      then have n: "Some g \<notin> Guid ` set (filter P xs)" by auto
      have "distinct (map Guid (filter P xs))" using d by (rule distinct_map_filter)
      from arranged_shift [OF this n ih] False \<open>gs = g # gs'\<close> show ?thesis by simp
    qed
  qed
qed

lemma arranged_dedupScan_visible:
  assumes "\<forall>p\<in>set xs. \<forall>q\<in>set xs. Hidden p \<and> \<not> Hidden q \<longrightarrow> Guid p \<noteq> Guid q"
    and "arranged gs xs"
  shows "arranged gs (dedupScan seen (filter (\<lambda>p. \<not> Hidden p) xs))"
  using assms
proof (induction xs arbitrary: gs seen)
  case Nil
  then show ?case by simp
next
  case (Cons x xs)
  show ?case
  proof (cases gs)
    case Nil
    then show ?thesis by simp
  next
    case (Cons g gs')
    define ys where "ys = (\<lambda>sn. dedupScan sn (filter (\<lambda>p. \<not> Hidden p) xs))"
    from Cons.prems(2) \<open>gs = g # gs'\<close>
    have a: "Guid x = Some g \<or> Some g \<notin> Guid ` set (x # xs)" and b: "arranged gs' xs"
      by simp_all
    from Cons.prems(1)
    have h: "\<forall>p\<in>set xs. \<forall>q\<in>set xs. Hidden p \<and> \<not> Hidden q \<longrightarrow> Guid p \<noteq> Guid q"
      by simp
    have ih: "arranged gs' (ys sn)" for sn
      unfolding ys_def using Cons.IH [OF h b] .
    have sub: "set (ys sn) \<subseteq> {q \<in> set xs. \<not> Hidden q}" for sn
      unfolding ys_def using set_dedupScan [of sn "filter (\<lambda>p. \<not> Hidden p) xs"] by auto
    have dis: "distinct (map Guid (ys sn))" and sn: "Guid ` set (ys sn) \<inter> sn = {}" for sn
      unfolding ys_def using distinct_dedupScan [of sn "filter (\<lambda>p. \<not> Hidden p) xs"] by simp_all
    show ?thesis
    proof (cases "Hidden x \<or> Guid x \<in> seen")
      case True
      have n: "Some g \<notin> Guid ` set (ys seen)"
      proof
        assume "Some g \<in> Guid ` set (ys seen)"
        then obtain q where q: "q \<in> set (ys seen)" "Guid q = Some g"
          by (auto simp add: image_iff)
        with sub [of seen] have qx: "q \<in> set xs" "\<not> Hidden q" by auto
        with a q have gx: "Guid x = Some g" by (auto simp add: image_iff)
        from True show False
        proof
          assume "Hidden x"
          with Cons.prems(1) qx have "Guid x \<noteq> Guid q" by auto
          with gx q show False by simp
        next
          assume "Guid x \<in> seen"
          with gx sn [of seen] q show False by auto
        qed
      qed
      from arranged_shift [OF dis n ih] True \<open>gs = g # gs'\<close> show ?thesis
        by (auto simp add: ys_def)
    next
      case False
      from a sub [of "insert (Guid x) seen"]
      have "Guid x = Some g \<or> Some g \<notin> Guid ` set (x # ys (insert (Guid x) seen))"
        by (auto simp add: image_iff)
      with ih [of "insert (Guid x) seen"] False \<open>gs = g # gs'\<close> show ?thesis
        by (simp add: ys_def)
    qed
  qed
qed

subsection \<open>The passes after the default-profile existence pass\<close>

lemma mediaLoop_eq:
  "mediaLoop ext ps (b, i) =
     (map (repairMedia ext) ps, b \<or> list_ex (badBackground ext) ps, i \<or> list_ex (badIcon ext) ps)"
  by (induction ps arbitrary: b i)
     (auto simp add: checkBackground_def checkIcon_def repairMedia_def badBackground_def badIcon_def)

lemma ValidateAllSchemesExist_eq:
  "ValidateAllSchemesExist s =
     s\<lparr>profiles := map (repairScheme (ColorSchemes (globals s))) (profiles s),
       warnings := warnings s @ schemeWarning s\<rparr>"
  by (simp add: ValidateAllSchemesExist_def schemesLoop_eq unknownScheme_def [abs_def]
      repairScheme_def [abs_def] schemeWarning_def Let_def)

lemma ValidateMediaResources_eq:
  "ValidateMediaResources ext s =
     s\<lparr>profiles := map (repairMedia ext) (profiles s),
       warnings := warnings s @ mediaWarnings ext s\<rparr>"
  by (simp add: ValidateMediaResources_def mediaLoop_eq mediaWarnings_def Let_def)

lemma ValidateKeybindings_eq:
  "ValidateKeybindings s = s\<lparr>warnings := warnings s @ keybindingWarnings s\<rparr>"
  by (simp add: ValidateKeybindings_def keybindingWarnings_def Let_def)

lemma ValidateNoGlobalsKey_eq:
  "ValidateNoGlobalsKey s = s\<lparr>warnings := warnings s @ globalsKeyWarning s\<rparr>"
  by (simp add: ValidateNoGlobalsKey_def globalsKeyWarning_def)

lemma bad_repairScheme [simp]:
  "badBackground ext (repairScheme schemes p) = badBackground ext p"
  "badIcon ext (repairScheme schemes p) = badIcon ext p"
  by (simp_all add: badBackground_def badIcon_def repairScheme_def)

lemma list_ex_map: "list_ex P (map f xs) = list_ex (\<lambda>x. P (f x)) xs"
  by (induction xs) simp_all

lemma warnings_after_schemes [simp]:
  "mediaWarnings ext (s\<lparr>profiles := map (repairScheme schemes) (profiles s), warnings := w\<rparr>) =
     mediaWarnings ext s"
  "keybindingWarnings (s\<lparr>profiles := ps, warnings := w\<rparr>) = keybindingWarnings s"
  "globalsKeyWarning (s\<lparr>profiles := ps, warnings := w\<rparr>) = globalsKeyWarning s"
  by (simp_all add: mediaWarnings_def keybindingWarnings_def globalsKeyWarning_def list_ex_map)

lemma afterDefaultProfileCheck_eq:
  "afterDefaultProfileCheck ext s =
     s\<lparr>profiles := map (\<lambda>p. repairMedia ext (repairScheme (ColorSchemes (globals s)) p)) (profiles s),
       warnings := warnings s @ lateWarnings ext s\<rparr>"
  unfolding afterDefaultProfileCheck_def
  by (simp add: ValidateAllSchemesExist_eq ValidateMediaResources_eq ValidateKeybindings_eq
      ValidateNoGlobalsKey_eq lateWarnings_def)


subsection \<open>The repairs are idempotent\<close>

lemma repair_fields [simp]:
  "Guid (repairScheme schemes p) = Guid p"
  "Name (repairScheme schemes p) = Name p"
  "Hidden (repairScheme schemes p) = Hidden p"
  "Guid (repairMedia ext p) = Guid p"
  "Name (repairMedia ext p) = Name p"
  "Hidden (repairMedia ext p) = Hidden p"
  "ColorSchemeName (repairMedia ext p) = ColorSchemeName p"
  by (simp_all add: repairScheme_def repairMedia_def checkBackground_def checkIcon_def)

lemma not_bad_repairMedia [simp]:
  "\<not> badBackground ext (repairMedia ext p)"
  "\<not> badIcon ext (repairMedia ext p)"
  by (simp_all add: badBackground_def badIcon_def repairMedia_def checkBackground_def checkIcon_def)

lemma repairMedia_idem: "\<not> badBackground ext p \<Longrightarrow> \<not> badIcon ext p \<Longrightarrow> repairMedia ext p = p"
  by (auto simp add: badBackground_def badIcon_def repairMedia_def checkBackground_def checkIcon_def)

lemma repairScheme_again:
  "repairScheme schemes (repairMedia ext (repairScheme schemes p)) = repairMedia ext (repairScheme schemes p)"
  by (simp add: repairScheme_def repairMedia_def checkBackground_def checkIcon_def)

lemma repair_idem:
  "repairMedia ext (repairScheme schemes (repairMedia ext (repairScheme schemes p))) =
     repairMedia ext (repairScheme schemes p)"
  by (simp add: repairScheme_again repairMedia_idem)

lemma unknown_after_repair:
  assumes "ColorSchemeName (repairMedia ext (repairScheme schemes p)) \<noteq> []"
    and "c_str (ColorSchemeName (repairMedia ext (repairScheme schemes p))) \<notin> schemes"
  shows "ColorSchemeName p \<noteq> [] \<and> c_str (ColorSchemeName p) \<notin> schemes"
  using assms by (auto simp add: repairScheme_def split: if_splits)

subsection \<open>The lookups read identifiers and names only\<close>

lemma find_map_Name:
  "(\<And>p. Name (f p) = Name p) \<Longrightarrow>
   find (\<lambda>p. c_str (Name p) = n) (map f ps) = map_option f (find (\<lambda>p. c_str (Name p) = n) ps)"
  by (induction ps) simp_all

lemma GetProfileGuidByName_map:
  assumes "profiles s' = map f (profiles s)"
    and g: "\<And>p. Guid (f p) = Guid p" and n: "\<And>p. Name (f p) = Name p"
  shows "GetProfileGuidByName ext s' t = GetProfileGuidByName ext s t"
proof -
  have 1: "(FindProfile s' x = None) = (FindProfile s x = None)" for x
    by (simp add: FindProfile_None assms(1) list_ex_map g)
  have 2: "lookupName s' t = lookupName s t"
    by (cases "find (\<lambda>p. c_str (Name p) = t) (profiles s)")
       (simp_all add: lookupName_def assms(1) find_map_Name [of f, OF n] GuidValue_def g)
  show ?thesis
    by (simp add: GetProfileGuidByName_def 1 2 split: option.split)
qed

lemma ResolveDefaultProfile_eq:
  assumes "\<forall>p\<in>set (profiles s). Guid p \<noteq> None"
  shows "ResolveDefaultProfile ext s =
     Inr (s\<lparr>globals := (globals s)\<lparr>DefaultProfile := resolvedDefault ext s\<rparr>\<rparr>)"
proof (cases "UnparsedDefaultProfile (globals s)")
  case None
  then show ?thesis by (simp add: ResolveDefaultProfile_def resolvedDefault_def)
next
  case (Some t)
  from GetProfileGuidByName_total [OF assms] obtain r where
    "GetProfileGuidByName ext s t = Inr r" by blast
  with Some show ?thesis
    by (cases r) (simp_all add: ResolveDefaultProfile_def resolvedDefault_def Let_def)
qed


subsection \<open>Validating validated settings\<close>

lemma GenerateGuidIfNecessary_id: "Guid p \<noteq> None \<Longrightarrow> GenerateGuidIfNecessary ext p = p"
  by (auto simp add: GenerateGuidIfNecessary_def)

lemma rerun_afterDedup:
  assumes ne: "profiles s \<noteq> []"
    and ok: "\<forall>p\<in>set (profiles s). Guid p \<noteq> None \<and> \<not> Hidden p"
    and d: "distinct (map Guid (profiles s))"
    and a: "arranged (guidOrderOf s) (profiles s)"
  shows "afterDedup ext s = Inr (s\<lparr>warnings := []\<rparr>)"
proof -
  have gen: "map (GenerateGuidIfNecessary ext) (profiles s) = profiles s"
    using ok by (simp add: map_idI GenerateGuidIfNecessary_id)
  have g: "\<forall>p\<in>set (profiles s). Guid p \<noteq> None" using ok by simp
  have rl: "reorderLoop (guidOrderOf s) 0 (profiles s) = Inr (profiles s)"
    using reorderLoop_fixed [OF g, of "guidOrderOf s" 0] a by simp
  have f: "filter (\<lambda>p. \<not> Hidden p) (profiles s) = profiles s"
    using ok by simp
  have dd: "dedupScan {} (profiles s) = profiles s"
    using dedupScan_distinct_id [OF d, of "{}"] by simp
  have v: "ValidateNoDuplicateProfiles (s\<lparr>warnings := []\<rparr>) = Inr (s\<lparr>warnings := []\<rparr>)"
    using ValidateNoDuplicateProfiles_scan [of "s\<lparr>warnings := []\<rparr>"] g dd by simp
  show ?thesis
    using ne
    by (simp add: afterDedup_def ValidateProfilesExist_def ValidateProfilesHaveGuid_def gen
        ReorderProfilesToMatchUserSettingsOrder_def rl RemoveHiddenProfiles_def f v Let_def)
qed

lemma visible_of_run:
  assumes "ValidateSettings ext s = Inr s1"
  shows "\<exists>p\<in>set (profiles s). \<not> Hidden p"
proof (rule ccontr)
  assume "\<not> (\<exists>p\<in>set (profiles s). \<not> Hidden p)"
  then have "\<forall>p\<in>set (profiles s). Hidden p" by simp
  with ValidateSettings_cases(1,2) [of s ext] assms show False
    by (cases "profiles s = []") auto
qed

lemma lateWarnings_rerun:
  assumes p: "profiles s' = map (\<lambda>p. repairMedia ext (repairScheme (ColorSchemes (globals s)) p)) (profiles s)"
    and c: "ColorSchemes (globals s') = ColorSchemes (globals s)"
    and k: "KeybindingsWarnings (globals s') = KeybindingsWarnings (globals s)"
    and u: "userSettings s' = userSettings s"
  shows "set (lateWarnings ext s') \<subseteq> set (lateWarnings ext s)"
proof -
  have 1: "set (schemeWarning s') \<subseteq> set (schemeWarning s)"
    using unknown_after_repair [of ext "ColorSchemes (globals s)"]
    by (auto simp add: schemeWarning_def p c list_ex_iff unknownScheme_def)
  have 2: "mediaWarnings ext s' = []"
    by (simp add: mediaWarnings_def p list_ex_iff)
  have 3: "keybindingWarnings s' = keybindingWarnings s"
    by (simp add: keybindingWarnings_def k)
  have 4: "globalsKeyWarning s' = globalsKeyWarning s"
    by (simp add: globalsKeyWarning_def u)
  from 1 show ?thesis
    by (auto simp add: lateWarnings_def 2 3 4)
qed

lemma rerun_arranged:
  assumes run: "ValidateSettings ext s = Inr s1"
    and arr: "arranged (guidOrderOf s1) (profiles s1)"
  shows "\<exists>w. ValidateSettings ext s1 = Inr (s1\<lparr>warnings := w\<rparr>) \<and> set w \<subseteq> set (warnings s1)"
proof -
  define T where "T = ColorSchemes (globals s)"
  define r where "r = (\<lambda>p. repairMedia ext (repairScheme T p))"
  have rG: "Guid (r p) = Guid p" and rN: "Name (r p) = Name p" and rH: "Hidden (r p) = Hidden p" for p
    by (simp_all add: r_def)
  have rr: "r (r p) = r p" for p
    by (simp add: r_def repair_idem)
  from afterDedup_cases(3) [OF visible_of_run [OF run], of ext] obtain ps1 w5 where
    m: "mset ps1 = mset (map (GenerateGuidIfNecessary ext) (profiles s))"
    and ad: "afterDedup ext s =
         Inr (s\<lparr>profiles := dedupScan {} (filter (\<lambda>p. \<not> Hidden p) ps1), warnings := w5\<rparr>)"
    and fne: "filter (\<lambda>p. \<not> Hidden p) ps1 \<noteq> []"
    by blast
  define F where "F = dedupScan {} (filter (\<lambda>p. \<not> Hidden p) ps1)"
  have dF: "distinct (map Guid F)"
    using distinct_dedupScan [of "{}" "filter (\<lambda>p. \<not> Hidden p) ps1"] by (simp add: F_def)
  from m have "set ps1 = set (map (GenerateGuidIfNecessary ext) (profiles s))"
    by (rule mset_eq_setD)
  with set_dedupScan [of "{}" "filter (\<lambda>p. \<not> Hidden p) ps1"]
  have gF: "\<forall>p\<in>set F. Guid p \<noteq> None" and hF: "\<forall>p\<in>set F. \<not> Hidden p"
    by (auto simp add: F_def)
  have neF: "F \<noteq> []"
    using dedupScan_not_Nil [OF fne] by (simp add: F_def)
  define s5 where "s5 = s\<lparr>profiles := F, warnings := w5\<rparr>"
  have ad5: "afterDedup ext s = Inr s5"
    using ad by (simp add: F_def s5_def)
  from neF gF obtain first rest g0 where Fc: "F = first # rest" and g0: "Guid first = Some g0"
    by (cases F) auto
  have g0F: "list_ex (\<lambda>p. Guid p = Some g0) F"
    by (simp add: Fc g0)
  define R where "R = resolvedDefault ext s5"
  define s6 where "s6 = s5\<lparr>globals := (globals s)\<lparr>DefaultProfile := R\<rparr>\<rparr>"
  have res: "ResolveDefaultProfile ext s5 = Inr s6"
    using ResolveDefaultProfile_eq [of s5 ext] gF by (simp add: s5_def s6_def R_def)
  define M where "M = (R = null_guid \<or> \<not> list_ex (\<lambda>p. Guid p = Some R) F)"
  have M6: "defaultMissing s6 = M"
    by (simp add: defaultMissing_def s6_def s5_def M_def)
  define d where "d = (if M then g0 else R)"
  define mw where "mw = (if M then [MissingDefaultProfile] else [])"
  define s7 where "s7 = s\<lparr>profiles := F, globals := (globals s)\<lparr>DefaultProfile := d\<rparr>,
      warnings := w5 @ mw\<rparr>"
  have ex: "ValidateDefaultProfileExists s6 = Inr s7"
    using ValidateDefaultProfileExists_repair [of s6 first rest g0]
    by (simp add: M6) (simp add: s6_def s5_def s7_def d_def mw_def Fc g0)
  have s1: "s1 = afterDefaultProfileCheck ext s7"
    using run by (simp add: ValidateSettings_split beforeDefaultProfileCheck_def ad5 res ex)
  have s1e: "s1 = s\<lparr>profiles := map r F, globals := (globals s)\<lparr>DefaultProfile := d\<rparr>,
                   warnings := w5 @ mw @ lateWarnings ext s7\<rparr>"
    unfolding s1 afterDefaultProfileCheck_eq by (simp add: s7_def r_def T_def)
  define s5' where "s5' = s1\<lparr>warnings := []\<rparr>"
  have ad5': "afterDedup ext s1 = Inr s5'"
    unfolding s5'_def
  proof (rule rerun_afterDedup)
    show "profiles s1 \<noteq> []" by (simp add: s1e neF)
    show "\<forall>p\<in>set (profiles s1). Guid p \<noteq> None \<and> \<not> Hidden p"
      using gF hF by (simp add: s1e rG rH)
    show "distinct (map Guid (profiles s1))"
      using dF by (simp add: s1e comp_def rG)
    show "arranged (guidOrderOf s1) (profiles s1)"
      by (rule arr)
  qed
  have gF': "\<forall>p\<in>set (profiles s5'). Guid p \<noteq> None"
    using gF by (simp add: s5'_def s1e rG)
  define R' where "R' = (case UnparsedDefaultProfile (globals s) of None \<Rightarrow> d | Some t \<Rightarrow> R)"
  have byName: "GetProfileGuidByName ext s5' t = GetProfileGuidByName ext s5 t" for t
    by (rule GetProfileGuidByName_map [of _ r]) (simp_all add: s5'_def s1e s5_def rG rN)
  have g5': "UnparsedDefaultProfile (globals s5') = UnparsedDefaultProfile (globals s)"
    "DefaultProfile (globals s5') = d"
    by (simp_all add: s5'_def s1e)
  have g5: "UnparsedDefaultProfile (globals s5) = UnparsedDefaultProfile (globals s)"
    by (simp add: s5_def)
  have R'eq: "resolvedDefault ext s5' = R'"
    by (simp add: resolvedDefault_def R'_def R_def byName g5' g5 split: option.split)
  define s6' where "s6' = s5'\<lparr>globals := (globals s5')\<lparr>DefaultProfile := R'\<rparr>\<rparr>"
  have res': "ResolveDefaultProfile ext s5' = Inr s6'"
    using ResolveDefaultProfile_eq [OF gF', of ext] by (simp add: s6'_def R'eq)
  define M' where "M' = (R' = null_guid \<or> \<not> list_ex (\<lambda>p. Guid p = Some R') F)"
  have M6': "defaultMissing s6' = M'"
    by (simp add: defaultMissing_def s6'_def s5'_def s1e M'_def list_ex_map rG)
  have key: "(if M' then g0 else R') = d" "M' \<longrightarrow> M"
    using g0F by (auto simp add: M'_def R'_def d_def M_def split: option.splits)
  define mw' where "mw' = (if M' then [MissingDefaultProfile] else [])"
  define s7' where "s7' = s1\<lparr>warnings := mw'\<rparr>"
  have mws: "set mw' \<subseteq> set mw"
    using key(2) by (auto simp add: mw'_def mw_def)
  have pre: "profiles s6' = r first # map r rest" "Guid (r first) = Some g0"
    by (simp_all add: s6'_def s5'_def s1e Fc g0 rG)
  have e1: "(if M' then s6'\<lparr>warnings := warnings s6' @ [MissingDefaultProfile],
                            globals := (globals s6')\<lparr>DefaultProfile := g0\<rparr>\<rparr>
            else s6') = s7'"
  proof (cases M')
    case True
    with key(1) have "d = g0" by simp
    with True show ?thesis
      by (simp add: s6'_def s5'_def s7'_def mw'_def s1e)
  next
    case False
    with key(1) have "d = R'" by simp
    with False show ?thesis
      by (simp add: s6'_def s5'_def s7'_def mw'_def s1e)
  qed
  have ex': "ValidateDefaultProfileExists s6' = Inr s7'"
    using ValidateDefaultProfileExists_repair [OF pre] by (simp only: M6' e1)
  have v2: "ValidateSettings ext s1 = Inr (afterDefaultProfileCheck ext s7')"
    by (simp add: ValidateSettings_split beforeDefaultProfileCheck_def ad5' res' ex')
  have rep: "map (\<lambda>p. repairMedia ext (repairScheme (ColorSchemes (globals s7')) p)) (profiles s7') =
      profiles s7'"
    using rr by (simp add: s7'_def s1e r_def T_def comp_def)
  have fin: "afterDefaultProfileCheck ext s7' = s1\<lparr>warnings := mw' @ lateWarnings ext s7'\<rparr>"
    unfolding afterDefaultProfileCheck_eq rep by (simp add: s7'_def)
  have late: "set (lateWarnings ext s7') \<subseteq> set (lateWarnings ext s7)"
    by (rule lateWarnings_rerun) (simp_all add: s7'_def s1e s7_def r_def T_def)
  have sub: "set (mw' @ lateWarnings ext s7') \<subseteq> set (warnings s1)"
    using mws late by (auto simp add: s1e)
  have "ValidateSettings ext s1 = Inr (s1\<lparr>warnings := mw' @ lateWarnings ext s7'\<rparr>)"
    using v2 fin by simp
  with sub show ?thesis by blast
qed

lemma default_passes_profiles:
  assumes ne: "profiles s \<noteq> []" and g: "\<forall>p\<in>set (profiles s). Guid p \<noteq> None"
  shows "\<exists>s6 s7. ResolveDefaultProfile ext s = Inr s6 \<and> ValidateDefaultProfileExists s6 = Inr s7 \<and>
     profiles s7 = profiles s \<and> ColorSchemes (globals s7) = ColorSchemes (globals s) \<and>
     guidOrderOf s7 = guidOrderOf s"
proof -
  define s6 where "s6 = s\<lparr>globals := (globals s)\<lparr>DefaultProfile := resolvedDefault ext s\<rparr>\<rparr>"
  have res: "ResolveDefaultProfile ext s = Inr s6"
    using ResolveDefaultProfile_eq [OF g, of ext] by (simp add: s6_def)
  from ne g obtain first rest g0 where "profiles s6 = first # rest" "Guid first = Some g0"
    by (cases "profiles s") (auto simp add: s6_def)
  from ValidateDefaultProfileExists_repair [OF this]
  have "\<exists>s7. ValidateDefaultProfileExists s6 = Inr s7 \<and> profiles s7 = profiles s \<and>
      ColorSchemes (globals s7) = ColorSchemes (globals s) \<and> guidOrderOf s7 = guidOrderOf s"
    by (cases "defaultMissing s6") (simp_all add: s6_def)
  with res show ?thesis by blast
qed

lemma rerun_profiles:
  assumes run: "ValidateSettings ext s = Inr s1"
  shows "\<exists>s2. ValidateSettings ext s1 = Inr s2 \<and> mset (profiles s2) = mset (profiles s1)"
proof -
  define T where "T = ColorSchemes (globals s)"
  define r where "r = (\<lambda>p. repairMedia ext (repairScheme T p))"
  have rG: "Guid (r p) = Guid p" and rH: "Hidden (r p) = Hidden p" for p
    by (simp_all add: r_def)
  have rr: "r (r p) = r p" for p
    by (simp add: r_def repair_idem)
  from afterDedup_cases(3) [OF visible_of_run [OF run], of ext] obtain ps1 w5 where
    m: "mset ps1 = mset (map (GenerateGuidIfNecessary ext) (profiles s))"
    and ad: "afterDedup ext s =
         Inr (s\<lparr>profiles := dedupScan {} (filter (\<lambda>p. \<not> Hidden p) ps1), warnings := w5\<rparr>)"
    and fne: "filter (\<lambda>p. \<not> Hidden p) ps1 \<noteq> []"
    by blast
  define P3 where "P3 = dedupScan {} (filter (\<lambda>p. \<not> Hidden p) ps1)"
  define s5 where "s5 = s\<lparr>profiles := P3, warnings := w5\<rparr>"
  from m have "set ps1 = set (map (GenerateGuidIfNecessary ext) (profiles s))"
    by (rule mset_eq_setD)
  with set_dedupScan [of "{}" "filter (\<lambda>p. \<not> Hidden p) ps1"]
  have g3: "\<forall>p\<in>set P3. Guid p \<noteq> None" and h3: "\<forall>p\<in>set P3. \<not> Hidden p"
    by (auto simp add: P3_def)
  have d3: "distinct (map Guid P3)"
    using distinct_dedupScan [of "{}" "filter (\<lambda>p. \<not> Hidden p) ps1"] by (simp add: P3_def)
  have ne3: "P3 \<noteq> []"
    using dedupScan_not_Nil [OF fne] by (simp add: P3_def)
  have ad5: "afterDedup ext s = Inr s5"
    using ad by (simp add: s5_def P3_def)
  from default_passes_profiles [of s5 ext] ne3 g3 obtain s6 s7 where
    res: "ResolveDefaultProfile ext s5 = Inr s6" and ex: "ValidateDefaultProfileExists s6 = Inr s7"
    and p7: "profiles s7 = P3" and c7: "ColorSchemes (globals s7) = T"
    by (auto simp add: s5_def T_def)
  have s1: "s1 = afterDefaultProfileCheck ext s7"
    using run by (simp add: ValidateSettings_split beforeDefaultProfileCheck_def ad5 res ex)
  have p1: "profiles s1 = map r P3" and c1: "ColorSchemes (globals s1) = T"
    unfolding s1 afterDefaultProfileCheck_eq by (simp_all add: p7 c7 r_def)
  have vis: "\<exists>p\<in>set (profiles s1). \<not> Hidden p"
    using ne3 h3 by (cases P3) (auto simp add: p1 rH)
  from afterDedup_cases(3) [OF vis, of ext] obtain qs w where
    mq: "mset qs = mset (map (GenerateGuidIfNecessary ext) (profiles s1))"
    and adq: "afterDedup ext s1 =
         Inr (s1\<lparr>profiles := dedupScan {} (filter (\<lambda>p. \<not> Hidden p) qs), warnings := w\<rparr>)"
    by blast
  have gen: "map (GenerateGuidIfNecessary ext) (map r P3) = map r P3"
    using g3 by (intro map_idI) (auto simp add: GenerateGuidIfNecessary_id rG)
  have mq': "mset qs = mset (map r P3)"
    using mq by (simp only: p1 gen)
  then have sq: "set qs = set (map r P3)" by (rule mset_eq_setD)
  have fq: "filter (\<lambda>p. \<not> Hidden p) qs = qs"
    using h3 by (auto simp add: sq rH)
  have "mset (map Guid qs) = mset (map (\<lambda>p. Guid (r p)) P3)"
    using arg_cong [OF mq', of "image_mset Guid"] by (simp add: multiset.map_comp comp_def)
  from mset_eq_imp_distinct_iff [OF this] have dq: "distinct (map Guid qs)"
    using d3 by (simp add: rG)
  have iq: "dedupScan {} qs = qs"
    using dedupScan_distinct_id [OF dq, of "{}"] by simp
  have gq: "\<forall>p\<in>set qs. Guid p \<noteq> None"
    using g3 by (auto simp add: sq rG)
  have neq: "qs \<noteq> []"
    using ne3 mq' by (cases P3) auto
  define t5 where "t5 = s1\<lparr>profiles := qs, warnings := w\<rparr>"
  have adq5: "afterDedup ext s1 = Inr t5"
    using adq by (simp add: fq iq t5_def)
  from default_passes_profiles [of t5 ext] neq gq obtain t6 t7 where
    resq: "ResolveDefaultProfile ext t5 = Inr t6" and exq: "ValidateDefaultProfileExists t6 = Inr t7"
    and pq7: "profiles t7 = qs" and cq7: "ColorSchemes (globals t7) = T"
    by (auto simp add: t5_def c1)
  have v2: "ValidateSettings ext s1 = Inr (afterDefaultProfileCheck ext t7)"
    by (simp add: ValidateSettings_split beforeDefaultProfileCheck_def adq5 resq exq)
  have "map r qs = qs"
    using rr by (intro map_idI) (auto simp add: sq)
  then have "profiles (afterDefaultProfileCheck ext t7) = qs"
    unfolding afterDefaultProfileCheck_eq by (simp add: pq7 cq7 r_def)
  with v2 mq' p1 show ?thesis by simp
qed

lemma run_profiles:
  assumes run: "ValidateSettings ext s = Inr s1"
  shows "\<exists>ps1. mset ps1 = mset (map (GenerateGuidIfNecessary ext) (profiles s)) \<and>
     arranged (guidOrderOf s) ps1 \<and>
     profiles s1 = map (\<lambda>p. repairMedia ext (repairScheme (ColorSchemes (globals s)) p))
                     (dedupScan {} (filter (\<lambda>p. \<not> Hidden p) ps1)) \<and>
     guidOrderOf s1 = guidOrderOf s"
proof -
  from afterDedup_cases(3) [OF visible_of_run [OF run], of ext] obtain ps1 w5 where
    m: "mset ps1 = mset (map (GenerateGuidIfNecessary ext) (profiles s))"
    and a: "arranged (guidOrderOf s) ps1"
    and ad: "afterDedup ext s =
         Inr (s\<lparr>profiles := dedupScan {} (filter (\<lambda>p. \<not> Hidden p) ps1), warnings := w5\<rparr>)"
    and fne: "filter (\<lambda>p. \<not> Hidden p) ps1 \<noteq> []"
    by blast
  define P3 where "P3 = dedupScan {} (filter (\<lambda>p. \<not> Hidden p) ps1)"
  define s5 where "s5 = s\<lparr>profiles := P3, warnings := w5\<rparr>"
  from m have "set ps1 = set (map (GenerateGuidIfNecessary ext) (profiles s))"
    by (rule mset_eq_setD)
  with set_dedupScan [of "{}" "filter (\<lambda>p. \<not> Hidden p) ps1"]
  have g3: "\<forall>p\<in>set P3. Guid p \<noteq> None"
    by (auto simp add: P3_def)
  have ne3: "P3 \<noteq> []"
    using dedupScan_not_Nil [OF fne] by (simp add: P3_def)
  have ad5: "afterDedup ext s = Inr s5"
    using ad by (simp add: s5_def P3_def)
  have p5: "profiles s5 = P3" "ColorSchemes (globals s5) = ColorSchemes (globals s)"
    "guidOrderOf s5 = guidOrderOf s"
    by (simp_all add: s5_def)
  from default_passes_profiles [of s5 ext] ne3 g3 p5 obtain s6 s7 where
    res: "ResolveDefaultProfile ext s5 = Inr s6" and ex: "ValidateDefaultProfileExists s6 = Inr s7"
    and p7: "profiles s7 = P3" and c7: "ColorSchemes (globals s7) = ColorSchemes (globals s)"
    and o7: "guidOrderOf s7 = guidOrderOf s"
    by auto
  have s1: "s1 = afterDefaultProfileCheck ext s7"
    using run by (simp add: ValidateSettings_split beforeDefaultProfileCheck_def ad5 res ex)
  have p1: "profiles s1 = map (\<lambda>p. repairMedia ext (repairScheme (ColorSchemes (globals s)) p))
         (dedupScan {} (filter (\<lambda>p. \<not> Hidden p) ps1))"
    unfolding s1 afterDefaultProfileCheck_eq by (simp add: p7 c7 P3_def)
  have o1: "guidOrderOf s1 = guidOrderOf s"
    unfolding s1 afterDefaultProfileCheck_eq by (simp add: o7)
  from m a p1 o1 show ?thesis
    by (intro exI [of _ ps1] conjI)
qed

lemma run_hiddenApart:
  assumes run: "ValidateSettings ext s = Inr s1" and h: "hiddenApart ext s"
  shows "arranged (guidOrderOf s1) (profiles s1)"
proof -
  from run_profiles [OF run] obtain ps1 where
    m: "mset ps1 = mset (map (GenerateGuidIfNecessary ext) (profiles s))"
    and a: "arranged (guidOrderOf s) ps1"
    and p: "profiles s1 = map (\<lambda>p. repairMedia ext (repairScheme (ColorSchemes (globals s)) p))
                     (dedupScan {} (filter (\<lambda>p. \<not> Hidden p) ps1))"
    and o: "guidOrderOf s1 = guidOrderOf s"
    by blast
  have st: "set ps1 = GenerateGuidIfNecessary ext ` set (profiles s)"
    using mset_eq_setD [OF m] by simp
  have "\<forall>p\<in>set ps1. \<forall>q\<in>set ps1. Hidden p \<and> \<not> Hidden q \<longrightarrow> Guid p \<noteq> Guid q"
  proof (intro ballI impI)
    fix p q
    assume "p \<in> set ps1" "q \<in> set ps1" and hq: "Hidden p \<and> \<not> Hidden q"
    with st obtain p0 q0 where p0: "p0 \<in> set (profiles s)" "p = GenerateGuidIfNecessary ext p0"
      and q0: "q0 \<in> set (profiles s)" "q = GenerateGuidIfNecessary ext q0"
      by auto
    from hq have "Hidden p0 \<and> \<not> Hidden q0" by (simp add: p0 q0)
    with h p0(1) q0(1) show "Guid p \<noteq> Guid q"
      unfolding hiddenApart_def p0(2) q0(2) by blast
  qed
  from arranged_dedupScan_visible [OF this a, of "{}"] show ?thesis
    by (simp add: p o arranged_map)
qed

lemma rerun_same:
  assumes run: "ValidateSettings ext s = Inr s1"
    and again: "ValidateSettings ext s1 = Inr (s1\<lparr>warnings := w\<rparr>)"
  shows "arranged (guidOrderOf s1) (profiles s1)"
proof -
  from run_profiles [OF run] obtain ps1 where
    p: "profiles s1 = map (\<lambda>p. repairMedia ext (repairScheme (ColorSchemes (globals s)) p))
                     (dedupScan {} (filter (\<lambda>p. \<not> Hidden p) ps1))"
    by blast
  have "\<forall>p\<in>set (profiles s1). \<not> Hidden p"
    using set_dedupScan [of "{}" "filter (\<lambda>p. \<not> Hidden p) ps1"] by (auto simp add: p)
  then have "hiddenApart ext s1"
    by (simp add: hiddenApart_def)
  from run_hiddenApart [OF again this] show ?thesis by simp
qed

text \<open>
  C9 (as amended): when validation returns settings, validating those settings again also
  returns, with the same profiles, each with all its fields, as a multiset. The second run
  returns the very same settings (profiles in the same order, same default profile) but for
  the warning list, which then holds no warning that is not in the list of the first run,
  exactly when the profiles the first run returns are in the order the reorder pass leaves
  behind. They are whenever no hidden profile of the input has the identifier of a visible
  one.
\<close>

theorem ValidateSettings_twice:
  assumes "ValidateSettings ext s = Inr s1"
  shows "(\<exists>s2. ValidateSettings ext s1 = Inr s2 \<and> mset (profiles s2) = mset (profiles s1)) \<and>
     ((\<exists>w. ValidateSettings ext s1 = Inr (s1\<lparr>warnings := w\<rparr>) \<and> set w \<subseteq> set (warnings s1)) =
        arranged (guidOrderOf s1) (profiles s1)) \<and>
     (hiddenApart ext s \<longrightarrow>
        (\<exists>w. ValidateSettings ext s1 = Inr (s1\<lparr>warnings := w\<rparr>) \<and> set w \<subseteq> set (warnings s1)))"
  using rerun_profiles [OF assms] rerun_arranged [OF assms] rerun_same [OF assms]
    run_hiddenApart [OF assms]
  by blast

lemma exRun_validated_again:
  "ValidateSettings exExt exRunValidated = Inr (exRunValidated\<lparr>warnings := [LegacyGlobalsProperty]\<rparr>)"
  by (simp add: ValidateSettings_def pass_defs
      exRunValidated_def exExt_def exProfile_def exGlobals_def Campbell_def)

lemma exReorder_validated: "ValidateSettings exExt exReorder = Inr exReorderValidated"
  by (simp add: ValidateSettings_def pass_defs
      exReorder_def exReorderValidated_def exExt_def exProfile_def exGlobals_def)

lemma exReorder_validated_again:
  "ValidateSettings exExt exReorderValidated = Inr (exReorderValidated\<lparr>warnings := []\<rparr>)"
  by (simp add: ValidateSettings_def pass_defs
      exReorder_def exReorderValidated_def exExt_def exProfile_def exGlobals_def)

theorem ValidateSettings_twice_witness:
  "hiddenApart exExt exRun \<and>
   ValidateSettings exExt exRun = Inr exRunValidated \<and>
   ValidateSettings exExt exRunValidated = Inr (exRunValidated\<lparr>warnings := [LegacyGlobalsProperty]\<rparr>) \<and>
   warnings exRunValidated = [MissingDefaultProfile, UnknownColorScheme, LegacyGlobalsProperty] \<and>
   arranged (guidOrderOf exRunValidated) (profiles exRunValidated) \<and>
   hiddenApart exExt exReorder \<and>
   \<not> distinct (map (\<lambda>p. Guid (GenerateGuidIfNecessary exExt p)) (profiles exReorder)) \<and>
   ValidateSettings exExt exReorder = Inr exReorderValidated \<and>
   ValidateSettings exExt exReorderValidated = Inr (exReorderValidated\<lparr>warnings := []\<rparr>) \<and>
   arranged (guidOrderOf exReorderValidated) (profiles exReorderValidated)"
proof -
  have h: "hiddenApart exExt exRun" "hiddenApart exExt exReorder"
    by (simp_all add: hiddenApart_def exRun_def exReorder_def exProfile_def
        GenerateGuidIfNecessary_def exExt_def)
  have d: "\<not> distinct (map (\<lambda>p. Guid (GenerateGuidIfNecessary exExt p)) (profiles exReorder))"
    by (simp add: exReorder_def exProfile_def GenerateGuidIfNecessary_def)
  from ValidateSettings_twice [OF exRun_validated] h(1)
  have 1: "arranged (guidOrderOf exRunValidated) (profiles exRunValidated)"
    by blast
  from ValidateSettings_twice [OF exReorder_validated] h(2)
  have 2: "arranged (guidOrderOf exReorderValidated) (profiles exReorderValidated)"
    by blast
  from h d 1 2 exRun_validated exRun_validated_again exReorder_validated exReorder_validated_again
  show ?thesis
    by (simp add: exRunValidated_def)
qed

text \<open>
  The claim as stated fails: the second run warns again about the legacy key, and with a
  hidden profile placed before a visible one of the same identifier it also changes the
  order of the profiles.
\<close>

theorem ValidateSettings_twice_counterexample:
  "ValidateSettings exExt exTwice = Inr exTwice1 \<and>
   ValidateSettings exExt exTwice1 = Inr exTwice2 \<and>
   warnings exTwice2 \<noteq> [] \<and>
   profiles exTwice2 \<noteq> profiles exTwice1"
proof -
  have 1: "ValidateSettings exExt exTwice = Inr exTwice1"
    by (simp add: ValidateSettings_def pass_defs
        exTwice_def exTwice1_def exExt_def exProfile_def exGlobals_def)
  have 2: "ValidateSettings exExt exTwice1 = Inr exTwice2"
    by (simp add: ValidateSettings_def pass_defs
        exTwice_def exTwice1_def exTwice2_def exExt_def exProfile_def exGlobals_def)
  have 3: "warnings exTwice2 \<noteq> []" "profiles exTwice2 \<noteq> profiles exTwice1"
    by (simp_all add: exTwice1_def exTwice2_def exProfile_def)
  from 1 2 3 show ?thesis by simp
qed

subsection \<open>The precedence of the resolver\<close>

lemma sint_size:
  assumes "n < 2 ^ 31"
  shows "sint (word_of_nat n :: 32 word) = int n"
proof -
  have "int n < 2 ^ 31" using assms by (metis of_nat_less_numeral_power_cancel_iff)
  then show ?thesis
    by (simp add: signed_of_nat signed_take_bit_int_eq_self)
qed

lemma GetProfileGuidByIndex_eq:
  assumes "\<forall>p\<in>set (profiles s). Guid p \<noteq> None" and "length (profiles s) < 2 ^ 31"
  shows "GetProfileGuidByIndex s index = Inr (indexLookup s index)"
proof (cases index)
  case None
  then show ?thesis by (simp add: GetProfileGuidByIndex_def indexLookup_def)
next
  case (Some i)
  show ?thesis
  proof (cases "0 \<le> sint i \<and> sint i < int (length (profiles s))")
    case True
    then have lt: "nat (sint i) < length (profiles s)" by linarith
    then have "profiles s ! nat (sint i) \<in> set (profiles s)" by simp
    with assms(1) obtain g where "Guid (profiles s ! nat (sint i)) = Some g" by auto
    with True lt Some show ?thesis
      by (simp add: GetProfileGuidByIndex_def indexLookup_def sint_size [OF assms(2)] GuidValue_def)
  next
    case False
    with Some show ?thesis
      by (auto simp add: GetProfileGuidByIndex_def indexLookup_def sint_size [OF assms(2)])
  qed
qed

text \<open>
  On a validated store of fewer than \<open>2^31\<close> profiles and for a token that parses whenever it
  has the identifier shape, the resolver returns the token's profile, else the profile at
  the index, else the default profile; an index that is negative or beyond the store selects
  nothing and raises nothing.
\<close>

theorem GetProfileForArgs_precedence:
  assumes "\<forall>p\<in>set (profiles s). Guid p \<noteq> None"
    and "identifierShape (ProfileArg args) \<longrightarrow> GuidFromString ext (ProfileArg args) \<noteq> None"
    and "length (profiles s) < 2 ^ 31"
  shows "GetProfileForArgs ext s (Some args) =
     Inr (case tokenLookup ext s (ProfileArg args) of
            Some g \<Rightarrow> g
          | None \<Rightarrow> (case indexLookup s (ProfileIndex args) of
                       Some g \<Rightarrow> g
                     | None \<Rightarrow> DefaultProfile (globals s)))"
proof -
  have i: "(case ProfileIndex args of None \<Rightarrow> Inr None | Some i \<Rightarrow> GetProfileGuidByIndex s (Some i)) =
      Inr (indexLookup s (ProfileIndex args))"
    using GetProfileGuidByIndex_eq [OF assms(1,3), of "ProfileIndex args"]
    by (cases "ProfileIndex args") (simp_all add: indexLookup_def)
  show ?thesis
    unfolding GetProfileForArgs_def
    by (simp add: i GetProfileGuidByName_eq [OF assms(1,2)] tokenLookup_def
        split: option.split)
qed

theorem GetProfileForArgs_precedence_witness:
  "GetProfileForArgs exExt exThree
     (Some \<lparr>ProfileIndex = Some 5, ProfileArg = [], Commandline = [], StartingDirectory = [], TabTitle = []\<rparr>)
     = Inr 8 \<and>
   GetProfileForArgs exExt exThree
     (Some \<lparr>ProfileIndex = Some (- 1), ProfileArg = [], Commandline = [], StartingDirectory = [], TabTitle = []\<rparr>)
     = Inr 8 \<and>
   GetProfileForArgs exExt exThree
     (Some \<lparr>ProfileIndex = Some 2, ProfileArg = [], Commandline = [], StartingDirectory = [], TabTitle = []\<rparr>)
     = Inr 9 \<and>
   GetProfileForArgs exExt exThree
     (Some \<lparr>ProfileIndex = Some 2, ProfileArg = [0x41], Commandline = [], StartingDirectory = [], TabTitle = []\<rparr>)
     = Inr 7"
proof -
  have g: "\<forall>p\<in>set (profiles exThree). Guid p \<noteq> None"
    by (simp add: exThree_def exStore_def exProfile_def)
  have l: "length (profiles exThree) < 2 ^ 31"
    by (simp add: exThree_def exStore_def)
  have p: "identifierShape (ProfileArg \<lparr>ProfileIndex = i, ProfileArg = t, Commandline = [],
        StartingDirectory = [], TabTitle = []\<rparr>) \<longrightarrow>
      GuidFromString exExt (ProfileArg \<lparr>ProfileIndex = i, ProfileArg = t, Commandline = [],
        StartingDirectory = [], TabTitle = []\<rparr>) \<noteq> None"
    if "length t < 2" for i t
    using that by (simp add: identifierShape_def)
  show ?thesis
    using GetProfileForArgs_precedence [OF g p l, of "[]" "Some 5"]
      GetProfileForArgs_precedence [OF g p l, of "[]" "Some (- 1)"]
      GetProfileForArgs_precedence [OF g p l, of "[]" "Some 2"]
      GetProfileForArgs_precedence [OF g p l, of "[0x41]" "Some 2"]
    by (simp add: tokenLookup_def indexLookup_def lookupByNameOrIdentifier_def identifierShape_def
        cNames_def c_str_def exThree_def exStore_def exProfile_def exGlobals_def Let_def)
qed

subsection \<open>The invariants of validated settings\<close>

lemma default_passes_default:
  assumes ne: "profiles s \<noteq> []" and g: "\<forall>p\<in>set (profiles s). Guid p \<noteq> None"
  shows "\<exists>s6 s7. ResolveDefaultProfile ext s = Inr s6 \<and> ValidateDefaultProfileExists s6 = Inr s7 \<and>
     profiles s7 = profiles s \<and> ColorSchemes (globals s7) = ColorSchemes (globals s) \<and>
     list_ex (\<lambda>p. Guid p = Some (DefaultProfile (globals s7))) (profiles s)"
proof -
  define s6 where "s6 = s\<lparr>globals := (globals s)\<lparr>DefaultProfile := resolvedDefault ext s\<rparr>\<rparr>"
  have res: "ResolveDefaultProfile ext s = Inr s6"
    using ResolveDefaultProfile_eq [OF g, of ext] by (simp add: s6_def)
  from ne g obtain first rest g0 where f: "profiles s6 = first # rest" "Guid first = Some g0"
    by (cases "profiles s") (auto simp add: s6_def)
  then have ps: "profiles s = first # rest" by (simp add: s6_def)
  from ValidateDefaultProfileExists_repair [OF f]
  have "\<exists>s7. ValidateDefaultProfileExists s6 = Inr s7 \<and> profiles s7 = profiles s \<and>
      ColorSchemes (globals s7) = ColorSchemes (globals s) \<and>
      list_ex (\<lambda>p. Guid p = Some (DefaultProfile (globals s7))) (profiles s)"
  proof (cases "defaultMissing s6")
    case True
    with ValidateDefaultProfileExists_repair [OF f] f(2) ps show ?thesis
      by (simp add: s6_def)
  next
    case False
    then have "list_ex (\<lambda>p. Guid p = Some (DefaultProfile (globals s6))) (profiles s6)"
      by (simp add: defaultMissing_def)
    with False ValidateDefaultProfileExists_repair [OF f] show ?thesis
      by (simp add: s6_def)
  qed
  with res show ?thesis by blast
qed

text \<open>
  When validation returns, the store is not empty, every profile has an identifier, is not
  hidden, has no path the \<open>Uri\<close> check rejects and has a scheme name that is empty, in the
  table when read up to its first terminator, or the fallback name; the identifiers are
  pairwise distinct, and the default-profile identifier is that of a profile of the store.
\<close>

theorem ValidateSettings_invariants:
  assumes run: "ValidateSettings ext s = Inr s1"
  shows "profiles s1 \<noteq> [] \<and>
     (\<forall>p\<in>set (profiles s1). Guid p \<noteq> None \<and> \<not> Hidden p \<and>
        \<not> badBackground ext p \<and> \<not> badIcon ext p \<and>
        (\<not> unknownScheme s1 p \<or> ColorSchemeName p = Campbell)) \<and>
     distinct (map Guid (profiles s1)) \<and>
     list_ex (\<lambda>p. Guid p = Some (DefaultProfile (globals s1))) (profiles s1)"
proof -
  define T where "T = ColorSchemes (globals s)"
  define r where "r = (\<lambda>p. repairMedia ext (repairScheme T p))"
  have rG: "Guid (r p) = Guid p" and rH: "Hidden (r p) = Hidden p" for p
    by (simp_all add: r_def)
  from afterDedup_cases(3) [OF visible_of_run [OF run], of ext] obtain ps1 w5 where
    m: "mset ps1 = mset (map (GenerateGuidIfNecessary ext) (profiles s))"
    and ad: "afterDedup ext s =
         Inr (s\<lparr>profiles := dedupScan {} (filter (\<lambda>p. \<not> Hidden p) ps1), warnings := w5\<rparr>)"
    and fne: "filter (\<lambda>p. \<not> Hidden p) ps1 \<noteq> []"
    by blast
  define P3 where "P3 = dedupScan {} (filter (\<lambda>p. \<not> Hidden p) ps1)"
  define s5 where "s5 = s\<lparr>profiles := P3, warnings := w5\<rparr>"
  from m have "set ps1 = set (map (GenerateGuidIfNecessary ext) (profiles s))"
    by (rule mset_eq_setD)
  with set_dedupScan [of "{}" "filter (\<lambda>p. \<not> Hidden p) ps1"]
  have g3: "\<forall>p\<in>set P3. Guid p \<noteq> None" and h3: "\<forall>p\<in>set P3. \<not> Hidden p"
    by (auto simp add: P3_def)
  have d3: "distinct (map Guid P3)"
    using distinct_dedupScan [of "{}" "filter (\<lambda>p. \<not> Hidden p) ps1"] by (simp add: P3_def)
  have ne3: "P3 \<noteq> []"
    using dedupScan_not_Nil [OF fne] by (simp add: P3_def)
  have ad5: "afterDedup ext s = Inr s5"
    using ad by (simp add: s5_def P3_def)
  from default_passes_default [of s5 ext] ne3 g3 obtain s6 s7 where
    res: "ResolveDefaultProfile ext s5 = Inr s6" and ex: "ValidateDefaultProfileExists s6 = Inr s7"
    and p7: "profiles s7 = P3" and c7: "ColorSchemes (globals s7) = T"
    and d7: "list_ex (\<lambda>p. Guid p = Some (DefaultProfile (globals s7))) P3"
    by (auto simp add: s5_def T_def)
  have s1: "s1 = afterDefaultProfileCheck ext s7"
    using run by (simp add: ValidateSettings_split beforeDefaultProfileCheck_def ad5 res ex)
  have p1: "profiles s1 = map r P3" and c1: "ColorSchemes (globals s1) = T"
    and g1: "globals s1 = globals s7"
    unfolding s1 afterDefaultProfileCheck_eq by (simp_all add: p7 c7 r_def)
  have 1: "profiles s1 \<noteq> []" using ne3 by (simp add: p1)
  have 2: "Guid p \<noteq> None \<and> \<not> Hidden p \<and> \<not> badBackground ext p \<and> \<not> badIcon ext p \<and>
        (\<not> unknownScheme s1 p \<or> ColorSchemeName p = Campbell)"
    if "p \<in> set (profiles s1)" for p
  proof -
    from that obtain q where q: "q \<in> set P3" "p = r q" by (auto simp add: p1)
    have "\<not> unknownScheme s1 (r q) \<or> ColorSchemeName (r q) = Campbell"
      by (simp add: unknownScheme_def c1 r_def repairScheme_def)
    with q g3 h3 show ?thesis
      by (simp add: rG rH) (simp add: r_def)
  qed
  have 3: "distinct (map Guid (profiles s1))"
    using d3 by (simp add: p1 comp_def rG)
  have 4: "list_ex (\<lambda>p. Guid p = Some (DefaultProfile (globals s1))) (profiles s1)"
    using d7 by (simp add: p1 g1 list_ex_map rG)
  from 1 2 3 4 show ?thesis by blast
qed

theorem ValidateSettings_invariants_witness:
  "ValidateSettings exExt exRun = Inr exRunValidated \<and>
   profiles exRunValidated = [exProfile 101 [0x41] [], exProfile 2 [0x42] Campbell] \<and>
   distinct (map Guid (profiles exRunValidated)) \<and>
   DefaultProfile (globals exRunValidated) = 101"
  using ValidateSettings_invariants [OF exRun_validated] exRun_validated
  by (simp add: exRunValidated_def exProfile_def)

end
